theory Spec2Isabelle
  imports Main "HOL-Library.Word"
begin

section \<open>Admin authentication service (src/routes/index.tsx, lines 1083-1392)\<close>

text \<open>
  The service keeps two kinds of rows in one table of the remote database: real sessions
  (\<open>user_id = "admin"\<close>) and the password-hash row (\<open>user_id = "__password_hash__"\<close>),
  and it keeps the current token in the browser's \<open>localStorage\<close>.

  Strings are lists of code units; the model covers the code units below 256, which is
  what \<^typ>\<open>char\<close> holds.  Every function of the service that awaits the store is a
  state transformer on a \<open>world\<close> that may end in a thrown error.
\<close>

subsection \<open>Rows, the world, thrown errors\<close>

text \<open>
  A row of the \<open>admin_session\<close> table.  \<open>id_pk\<close> is the server-assigned primary key
  (the client always sends \<open>id: ""\<close> and the server replaces it); the bookkeeping columns
  (\<open>data_creator\<close>, \<open>data_updater\<close>, \<open>create_time\<close>, \<open>update_time\<close>) are written by
  the server only and never read by the service, so the row type leaves them out.
\<close>

record session =
  id_pk :: nat
  user_id :: string
  session_token :: string
  expires_at :: string

text \<open>
  The world the service runs in: the rows of the remote table in insertion order, the
  next primary key the server hands out, the browser's \<open>localStorage\<close>, and the fate
  of the store requests still to come: request number \<open>k\<close> from now fails iff the
  \<open>k\<close>-th entry of \<open>faults\<close> is \<open>True\<close>; past the end of the list every request
  succeeds.
\<close>

record world =
  db :: "session list"
  next_id :: nat
  localStorage :: "string \<rightharpoonup> string"
  faults :: "bool list"

datatype error = StoreError

type_synonym 'a prog = "world \<Rightarrow> (error + 'a) \<times> world"

text \<open>\<open>return x\<close> inside an async function.\<close>

definition ret :: "'a \<Rightarrow> 'a prog" where
  "ret x w = (Inr x, w)"

text \<open>\<open>const x = await m; f x\<close>: a rejected promise propagates as a thrown error.\<close>

definition await :: "'a prog \<Rightarrow> ('a \<Rightarrow> 'b prog) \<Rightarrow> 'b prog" where
  "await m f w = (case m w of (Inl e, w') \<Rightarrow> (Inl e, w') | (Inr x, w') \<Rightarrow> f x w')"

text \<open>\<open>try { body } catch (error) { handler }\<close>: what the body did before it threw stays done.\<close>

definition try_catch :: "'a prog \<Rightarrow> (error \<Rightarrow> 'a prog) \<Rightarrow> 'a prog" where
  "try_catch body handler w =
     (case body w of (Inl e, w') \<Rightarrow> handler e w' | (Inr x, w') \<Rightarrow> (Inr x, w'))"

subsection \<open>The collaborators: session store, local persistence\<close>

text \<open>
  Modelled from the spec: the generated \<open>AdminSessionORM\<close> (\<open>@/sdk/database/orm/orm_admin_session\<close>)
  is not among the sources.  Section 6 of the specification gives its contract:
  \<open>insert(record) \<rightarrow> record-with-id\<close>, \<open>getAll() \<rightarrow> records\<close>,
  \<open>getByUserId(id) \<rightarrow> records\<close>, \<open>getByToken(token) \<rightarrow> records\<close>,
  \<open>deleteById(id) \<rightarrow> void\<close>, \<open>deleteByToken(token) \<rightarrow> void\<close>, and "all operations may
  fail with a generic store error".  A request that fails leaves the table as it was.
\<close>

definition request :: "(world \<Rightarrow> 'a \<times> world) \<Rightarrow> 'a prog" where
  "request op w =
     (case faults w of
        [] \<Rightarrow> (case op w of (x, w') \<Rightarrow> (Inr x, w'))
      | b # bs \<Rightarrow>
          if b then (Inl StoreError, w\<lparr>faults := bs\<rparr>)
          else (case op (w\<lparr>faults := bs\<rparr>) of (x, w') \<Rightarrow> (Inr x, w')))"

text \<open>Modelled from the spec: \<open>getAll() \<rightarrow> records\<close>.\<close>

definition getAllAdminSession :: "session list prog" where
  "getAllAdminSession = request (\<lambda>w. (db w, w))"

text \<open>Modelled from the spec: \<open>getByUserId(id) \<rightarrow> records\<close>.\<close>

definition getAdminSessionByUserId :: "string \<Rightarrow> session list prog" where
  "getAdminSessionByUserId u = request (\<lambda>w. (filter (\<lambda>r. user_id r = u) (db w), w))"

text \<open>Modelled from the spec: \<open>getByToken(token) \<rightarrow> records\<close>.\<close>

definition getAdminSessionBySessionToken :: "string \<Rightarrow> session list prog" where
  "getAdminSessionBySessionToken t =
     request (\<lambda>w. (filter (\<lambda>r. session_token r = t) (db w), w))"

text \<open>Modelled from the spec: \<open>deleteById(id) \<rightarrow> void\<close>.\<close>

definition deleteAdminSessionById :: "nat \<Rightarrow> unit prog" where
  "deleteAdminSessionById i =
     request (\<lambda>w. ((), w\<lparr>db := filter (\<lambda>r. id_pk r \<noteq> i) (db w)\<rparr>))"

text \<open>Modelled from the spec: \<open>deleteByToken(token) \<rightarrow> void\<close>.\<close>

definition deleteAdminSessionBySessionToken :: "string \<Rightarrow> unit prog" where
  "deleteAdminSessionBySessionToken t =
     request (\<lambda>w. ((), w\<lparr>db := filter (\<lambda>r. session_token r \<noteq> t) (db w)\<rparr>))"

text \<open>
  Modelled from the spec: \<open>insert(record) \<rightarrow> record-with-id\<close>, with "server-generated
  ids": the rows are appended in order, each under the next unused primary key.
\<close>

fun assign_ids :: "nat \<Rightarrow> session list \<Rightarrow> session list" where
  "assign_ids n [] = []"
| "assign_ids n (r # rs) = r\<lparr>id_pk := n\<rparr> # assign_ids (Suc n) rs"

definition insertAdminSession :: "session list \<Rightarrow> session list prog" where
  "insertAdminSession rs =
     request (\<lambda>w. let new = assign_ids (next_id w) rs
                  in (new, w\<lparr>db := db w @ new, next_id := next_id w + length rs\<rparr>))"

text \<open>
  \<open>localStorage.getItem\<close>, \<open>setItem\<close>, \<open>removeItem\<close>: the browser's own storage, which
  is no store request and has no failure branch here.
\<close>

definition getItem :: "string \<Rightarrow> world \<Rightarrow> string option" where
  "getItem k w = localStorage w k"

definition setItem :: "string \<Rightarrow> string \<Rightarrow> world \<Rightarrow> world" where
  "setItem k v w = w\<lparr>localStorage := (localStorage w)(k \<mapsto> v)\<rparr>"

definition removeItem :: "string \<Rightarrow> world \<Rightarrow> world" where
  "removeItem k w = w\<lparr>localStorage := (localStorage w)(k := None)\<rparr>"

subsection \<open>JavaScript built-ins the service uses\<close>

text \<open>
  White space as \<open>String.prototype.trim\<close> and \<open>parseInt\<close> see it, among the code
  units below 256: TAB, LF, VT, FF, CR, SP and NBSP.
\<close>

definition is_white :: "char \<Rightarrow> bool" where
  "is_white c = (of_char c \<in> {9, 10, 11, 12, 13, 32, 160 :: nat})"

definition trim :: "string \<Rightarrow> string" where
  "trim s = rev (dropWhile is_white (rev (dropWhile is_white s)))"

definition is_digit :: "char \<Rightarrow> bool" where
  "is_digit c = (48 \<le> (of_char c :: nat) \<and> (of_char c :: nat) \<le> 57)"

text \<open>The value of a run of decimal digits, most significant first.\<close>

fun digits_value :: "nat \<Rightarrow> string \<Rightarrow> nat" where
  "digits_value acc [] = acc"
| "digits_value acc (c # cs) = digits_value (10 * acc + (of_char c - 48)) cs"

text \<open>
  \<open>parseInt(s, 10)\<close>: skip leading white space, take an optional sign, then the longest
  run of decimal digits; no digit at all gives \<open>NaN\<close>, here \<open>None\<close>.  The value is kept
  as an exact integer: the service only compares it with a clock reading, an integer
  below \<open>2^53\<close>, and rounding to the nearest double does not move a number across such
  an integer.
\<close>

definition parseInt :: "string \<Rightarrow> int option" where
  "parseInt s =
     (let t = dropWhile is_white s;
          neg = (case t of [] \<Rightarrow> False | c # _ \<Rightarrow> c = CHR ''-'');
          u = (case t of [] \<Rightarrow> [] | c # r \<Rightarrow> if c = CHR ''-'' \<or> c = CHR ''+'' then r else t);
          z = takeWhile is_digit u
      in if z = [] then None
         else Some (if neg then - int (digits_value 0 z) else int (digits_value 0 z)))"

text \<open>\<open>now > expiresAt\<close> on numbers: every comparison with \<open>NaN\<close> is false.\<close>

definition js_gt :: "int \<Rightarrow> int option \<Rightarrow> bool" where
  "js_gt a b = (case b of None \<Rightarrow> False | Some v \<Rightarrow> a > v)"

text \<open>\<open>Number.prototype.toString()\<close> on an integer: decimal digits, a minus sign first.\<close>

definition digit_char :: "nat \<Rightarrow> char" where
  "digit_char d = ''0123456789'' ! d"

function nat_digits :: "nat \<Rightarrow> string" where
  "nat_digits n = (if n < 10 then [digit_char n] else nat_digits (n div 10) @ [digit_char (n mod 10)])"
  by pat_completeness auto
termination
  by (relation "measure (\<lambda>n. n)") auto

declare nat_digits.simps [simp del]

definition toString :: "int \<Rightarrow> string" where
  "toString i = (if i < 0 then CHR ''-'' # nat_digits (nat (- i)) else nat_digits (nat i))"

text \<open>\<open>byte.toString(16).padStart(2, "0")\<close>: two lowercase hexadecimal digits.\<close>

definition hex_digit :: "nat \<Rightarrow> char" where
  "hex_digit d = ''0123456789abcdef'' ! d"

definition hex2 :: "8 word \<Rightarrow> string" where
  "hex2 b = [hex_digit (unat b div 16), hex_digit (unat b mod 16)]"

subsection \<open>The service\<close>

definition SESSION_DURATION_MS :: int where
  "SESSION_DURATION_MS = 24 * 60 * 60 * 1000"

definition SESSION_TOKEN_KEY :: string where
  "SESSION_TOKEN_KEY = ''admin_session_token''"

definition PASSWORD_HASH_USER_ID :: string where
  "PASSWORD_HASH_USER_ID = ''__password_hash__''"

text \<open>
  \<open>generateSessionToken\<close>: \<open>rnd i\<close> is the \<open>i\<close>-th of the 32 bytes that
  \<open>crypto.getRandomValues\<close> writes for this call.
\<close>

definition generateSessionToken :: "(nat \<Rightarrow> 8 word) \<Rightarrow> string" where
  "generateSessionToken rnd = concat (map (\<lambda>i. hex2 (rnd i)) [0..<32])"

text \<open>
  \<open>hashPassword\<close>: \<open>sha\<close> stands for \<open>TextEncoder.encode\<close> followed by
  \<open>crypto.subtle.digest("SHA-256", _)\<close>, the platform's digest of the password text.
\<close>

definition hashPassword :: "(string \<Rightarrow> 8 word list) \<Rightarrow> string \<Rightarrow> string" where
  "hashPassword sha password = concat (map hex2 (sha password))"

definition getStoredPasswordHash :: "string option prog" where
  "getStoredPasswordHash =
     try_catch
       (await (getAdminSessionByUserId PASSWORD_HASH_USER_ID) (\<lambda>sessions.
          case sessions of
            s # _ \<Rightarrow> ret (Some (session_token s))
          | [] \<Rightarrow> ret None))
       (\<lambda>error. ret None)"

text \<open>\<open>for (const session of existing) { await orm.deleteAdminSessionById(session.id); }\<close>\<close>

fun delete_each :: "session list \<Rightarrow> unit prog" where
  "delete_each [] = ret ()"
| "delete_each (s # ss) = await (deleteAdminSessionById (id_pk s)) (\<lambda>_. delete_each ss)"

definition storePasswordHash :: "string \<Rightarrow> bool prog" where
  "storePasswordHash hash =
     try_catch
       (await (getAdminSessionByUserId PASSWORD_HASH_USER_ID) (\<lambda>existing.
        await (delete_each existing) (\<lambda>_.
        await (insertAdminSession
                 [\<lparr>id_pk = 0, user_id = PASSWORD_HASH_USER_ID,
                   session_token = hash, expires_at = ''0''\<rparr>]) (\<lambda>_.
        ret True))))
       (\<lambda>error. ret False)"

definition isPasswordSet :: "bool prog" where
  "isPasswordSet = await getStoredPasswordHash (\<lambda>hash. ret (hash \<noteq> None))"

definition logoutAdmin :: "unit prog" where
  "logoutAdmin w =
     (let token = getItem SESSION_TOKEN_KEY w;
          after =
            (case token of
               None \<Rightarrow> ret ()
             | Some t \<Rightarrow>
                 if t = [] then ret ()
                 else try_catch (deleteAdminSessionBySessionToken t) (\<lambda>error. ret ()))
      in await after (\<lambda>_ w'. (Inr (), removeItem SESSION_TOKEN_KEY w')) w)"

definition resetAdminPassword :: "bool prog" where
  "resetAdminPassword =
     try_catch
       (await (getAdminSessionByUserId PASSWORD_HASH_USER_ID) (\<lambda>existing.
        await (delete_each existing) (\<lambda>_.
        await logoutAdmin (\<lambda>_.
        ret True))))
       (\<lambda>error. ret False)"

text \<open>
  The loop of \<open>authenticateAdmin\<close> over the rows it has just listed:
  \<open>if (session.user_id !== PASSWORD_HASH_USER_ID) await orm.deleteAdminSessionById(session.id)\<close>.
\<close>

fun delete_sessions :: "session list \<Rightarrow> unit prog" where
  "delete_sessions [] = ret ()"
| "delete_sessions (s # ss) =
     (if user_id s \<noteq> PASSWORD_HASH_USER_ID
      then await (deleteAdminSessionById (id_pk s)) (\<lambda>_. delete_sessions ss)
      else delete_sessions ss)"

text \<open>
  The second half of \<open>authenticateAdmin\<close> (from "Password is valid (or just set), create
  a new session" on): the token and the expiry are computed, then everything else runs
  inside one \<open>try\<close>.
\<close>

definition create_session :: "(nat \<Rightarrow> 8 word) \<Rightarrow> int \<Rightarrow> string option prog" where
  "create_session rnd now_ms =
     (let sessionToken = generateSessionToken rnd;
          expiresAt = toString ((now_ms + SESSION_DURATION_MS) div 1000)
      in try_catch
           (await getAllAdminSession (\<lambda>existingSessions.
            await (delete_sessions existingSessions) (\<lambda>_.
            await (insertAdminSession
                     [\<lparr>id_pk = 0, user_id = ''admin'',
                       session_token = sessionToken, expires_at = expiresAt\<rparr>]) (\<lambda>_ w.
            (Inr (Some sessionToken), setItem SESSION_TOKEN_KEY sessionToken w)))))
           (\<lambda>error. ret None))"

text \<open>\<open>authenticateAdmin(password)\<close>; \<open>now_ms\<close> is what \<open>Date.now()\<close> returns.\<close>

definition authenticateAdmin ::
  "(string \<Rightarrow> 8 word list) \<Rightarrow> (nat \<Rightarrow> 8 word) \<Rightarrow> int \<Rightarrow> string \<Rightarrow> string option prog" where
  "authenticateAdmin sha rnd now_ms password =
     (if password = [] \<or> trim password = [] then ret None
      else
        let passwordHash = hashPassword sha password
        in await getStoredPasswordHash (\<lambda>storedHash.
             case storedHash of
               None \<Rightarrow>
                 await (storePasswordHash passwordHash) (\<lambda>stored.
                   if \<not> stored then ret None else create_session rnd now_ms)
             | Some h \<Rightarrow>
                 if passwordHash \<noteq> h then ret None else create_session rnd now_ms))"

text \<open>
  \<open>validateSession(sessionToken?)\<close>: \<open>sessionToken || localStorage.getItem(...)\<close> takes
  the argument unless it is missing or empty; \<open>!token\<close> holds for a missing and for an
  empty token.
\<close>

definition validateSession :: "string option \<Rightarrow> int \<Rightarrow> bool prog" where
  "validateSession sessionToken now_ms w =
     (let token =
            (case sessionToken of
               None \<Rightarrow> getItem SESSION_TOKEN_KEY w
             | Some t \<Rightarrow> if t = [] then getItem SESSION_TOKEN_KEY w else Some t)
      in case token of
           None \<Rightarrow> (Inr False, w)
         | Some t \<Rightarrow>
             if t = [] then (Inr False, w)
             else
               try_catch
                 (await (getAdminSessionBySessionToken t) (\<lambda>sessions.
                    case sessions of
                      [] \<Rightarrow> (\<lambda>w'. (Inr False, removeItem SESSION_TOKEN_KEY w'))
                    | session # _ \<Rightarrow>
                        if user_id session = PASSWORD_HASH_USER_ID
                        then (\<lambda>w'. (Inr False, removeItem SESSION_TOKEN_KEY w'))
                        else
                          let now = now_ms div 1000;
                              expiresAt = parseInt (expires_at session)
                          in if js_gt now expiresAt
                             then await (deleteAdminSessionById (id_pk session))
                                    (\<lambda>_ w'. (Inr False, removeItem SESSION_TOKEN_KEY w'))
                             else ret True))
                 (\<lambda>error. ret False) w)"

definition getSessionToken :: "world \<Rightarrow> string option" where
  "getSessionToken w = getItem SESSION_TOKEN_KEY w"

text \<open>The loop of \<open>cleanupExpiredSessions\<close>; \<open>now\<close> is read once, before the loop.\<close>

fun cleanup_each :: "int \<Rightarrow> session list \<Rightarrow> unit prog" where
  "cleanup_each now [] = ret ()"
| "cleanup_each now (s # ss) =
     (if user_id s = PASSWORD_HASH_USER_ID then cleanup_each now ss
      else
        let expiresAt = parseInt (expires_at s)
        in if js_gt now expiresAt
           then await (deleteAdminSessionById (id_pk s)) (\<lambda>_. cleanup_each now ss)
           else cleanup_each now ss)"

definition cleanupExpiredSessions :: "int \<Rightarrow> unit prog" where
  "cleanupExpiredSessions now_ms =
     try_catch
       (await getAllAdminSession (\<lambda>allSessions.
          let now = now_ms div 1000 in cleanup_each now allSessions))
       (\<lambda>error. ret ())"

subsection \<open>Notions used to state the properties\<close>

text \<open>No store request that is still to come fails.\<close>

definition no_faults :: "world \<Rightarrow> bool" where
  "no_faults w = (True \<notin> set (faults w))"

text \<open>The world once one store request has been answered, whatever the answer.\<close>

definition tick :: "world \<Rightarrow> world" where
  "tick w = w\<lparr>faults := tl (faults w)\<rparr>"

text \<open>
  Primary keys are what the server makes them: no two rows share one, and every key in
  the table is older than the next one to be handed out.
\<close>

definition wf_store :: "world \<Rightarrow> bool" where
  "wf_store w = (distinct (map id_pk (db w)) \<and> list_all (\<lambda>r. id_pk r < next_id w) (db w))"

text \<open>
  The row kinds, and the two rows that the service writes.
\<close>

definition is_hash_row :: "session \<Rightarrow> bool" where
  "is_hash_row r = (user_id r = PASSWORD_HASH_USER_ID)"

definition hash_row :: "string \<Rightarrow> nat \<Rightarrow> session" where
  "hash_row h n = \<lparr>id_pk = n, user_id = PASSWORD_HASH_USER_ID, session_token = h, expires_at = ''0''\<rparr>"

definition session_row :: "string \<Rightarrow> int \<Rightarrow> nat \<Rightarrow> session" where
  "session_row tok now_ms n =
     \<lparr>id_pk = n, user_id = ''admin'', session_token = tok,
      expires_at = toString ((now_ms + SESSION_DURATION_MS) div 1000)\<rparr>"

text \<open>
  What \<open>getStoredPasswordHash\<close> finds in a table that it can read.
\<close>

definition stored_hash :: "session list \<Rightarrow> string option" where
  "stored_hash rows = (case filter is_hash_row rows of [] \<Rightarrow> None | s # _ \<Rightarrow> Some (session_token s))"

text \<open>
  A row whose \<open>expires_at\<close> parses to a number of seconds strictly before \<open>now\<close>.
\<close>

definition expired :: "int \<Rightarrow> session \<Rightarrow> bool" where
  "expired now r = (case parseInt (expires_at r) of None \<Rightarrow> False | Some e \<Rightarrow> e < now)"

text \<open>
  Each loop of the service that deletes rows (\<open>delete_each\<close>, \<open>delete_sessions\<close>,
  \<open>cleanup_each\<close>) has the same shape: go through the rows listed, delete by primary
  key those that satisfy a test, stop at the first failing request.
\<close>

fun delete_where :: "(session \<Rightarrow> bool) \<Rightarrow> session list \<Rightarrow> unit prog" where
  "delete_where P [] = ret ()"
| "delete_where P (s # ss) =
     (if P s then await (deleteAdminSessionById (id_pk s)) (\<lambda>_. delete_where P ss)
      else delete_where P ss)"

text \<open>
  A program under which the primary keys stay as the server makes them.
\<close>

definition keeps_wf :: "'a prog \<Rightarrow> bool" where
  "keeps_wf m = (\<forall>w. wf_store w \<longrightarrow> wf_store (snd (m w)))"

subsection \<open>Example worlds\<close>

text \<open>
  A stand-in for the platform's digest (the bytes of the text itself) and two fillings
  of the random array.
\<close>

definition toy_digest :: "string \<Rightarrow> 8 word list" where
  "toy_digest s = map (\<lambda>c. of_nat (of_char c)) s"

definition rnd_a :: "nat \<Rightarrow> 8 word" where
  "rnd_a i = 10"

definition rnd_b :: "nat \<Rightarrow> 8 word" where
  "rnd_b i = 11"

text \<open>
  The empty store of a fresh installation.
\<close>

definition w_empty :: world where
  "w_empty = \<lparr>db = [], next_id = 0, localStorage = Map.empty, faults = []\<rparr>"

text \<open>
  After the first login with \<open>''secret''\<close> at time 0, and after a second login with
  the same password one second later.
\<close>

definition w_first :: world where
  "w_first =
     \<lparr>db = [\<lparr>id_pk = 0, user_id = ''__password_hash__'',
             session_token = hashPassword toy_digest ''secret'', expires_at = ''0''\<rparr>,
            \<lparr>id_pk = 1, user_id = ''admin'',
             session_token = generateSessionToken rnd_a, expires_at = ''86400''\<rparr>],
      next_id = 2,
      localStorage = [SESSION_TOKEN_KEY \<mapsto> generateSessionToken rnd_a],
      faults = []\<rparr>"

definition w_second :: world where
  "w_second =
     \<lparr>db = [\<lparr>id_pk = 0, user_id = ''__password_hash__'',
             session_token = hashPassword toy_digest ''secret'', expires_at = ''0''\<rparr>,
            \<lparr>id_pk = 2, user_id = ''admin'',
             session_token = generateSessionToken rnd_b, expires_at = ''86401''\<rparr>],
      next_id = 3,
      localStorage = [SESSION_TOKEN_KEY \<mapsto> generateSessionToken rnd_b],
      faults = []\<rparr>"

text \<open>
  After \<open>resetAdminPassword\<close> in \<open>w_first\<close>.
\<close>

definition w_reset :: world where
  "w_reset = \<lparr>db = [], next_id = 2, localStorage = Map.empty, faults = []\<rparr>"

text \<open>
  A table with the password-hash row, an expired session, a session that is still
  valid and a session whose \<open>expires_at\<close> is no number.
\<close>

definition w_mixed :: world where
  "w_mixed =
     \<lparr>db = [\<lparr>id_pk = 0, user_id = ''__password_hash__'', session_token = ''ab'', expires_at = ''0''\<rparr>,
            \<lparr>id_pk = 1, user_id = ''admin'', session_token = ''old'', expires_at = ''100''\<rparr>,
            \<lparr>id_pk = 2, user_id = ''admin'', session_token = ''new'', expires_at = ''9999''\<rparr>,
            \<lparr>id_pk = 3, user_id = ''admin'', session_token = ''odd'', expires_at = ''soon''\<rparr>],
      next_id = 4, localStorage = [SESSION_TOKEN_KEY \<mapsto> ''old''], faults = []\<rparr>"

text \<open>
  A password is set, one session is open and its token sits in \<open>localStorage\<close>; the
  next store request is going to fail.
\<close>

definition w_logged_in :: world where
  "w_logged_in =
     \<lparr>db = [\<lparr>id_pk = 0, user_id = ''__password_hash__'', session_token = ''ab'', expires_at = ''0''\<rparr>,
            \<lparr>id_pk = 1, user_id = ''admin'', session_token = ''tok'', expires_at = ''100''\<rparr>],
      next_id = 2, localStorage = [SESSION_TOKEN_KEY \<mapsto> ''tok''], faults = [True]\<rparr>"

section \<open>Properties\<close>

subsection \<open>Store requests\<close>

lemma tick_fields [simp]:
  "db (tick w) = db w" "next_id (tick w) = next_id w" "localStorage (tick w) = localStorage w"
  "faults (tick w) = tl (faults w)"
  by (simp_all add: tick_def)

lemma no_faults_tick [simp]: "no_faults w \<Longrightarrow> no_faults (tick w)"
  by (cases "faults w") (auto simp: no_faults_def)

lemma no_faults_update [simp]:
  "no_faults (w\<lparr>db := d\<rparr>) = no_faults w"
  "no_faults (w\<lparr>next_id := n\<rparr>) = no_faults w"
  "no_faults (w\<lparr>localStorage := l\<rparr>) = no_faults w"
  by (simp_all add: no_faults_def)

lemma tick_nil: "faults w = [] \<Longrightarrow> tick w = w"
  by (simp add: tick_def)

lemma request_unfold:
  "request op w =
     (if faults w \<noteq> [] \<and> hd (faults w) then (Inl StoreError, tick w)
      else (case op (tick w) of (x, w') \<Rightarrow> (Inr x, w')))"
proof (cases "faults w")
  case Nil
  then have "tick w = w" by (rule tick_nil)
  show ?thesis unfolding \<open>tick w = w\<close> using Nil by (simp add: request_def)
next
  case (Cons b bs)
  then show ?thesis by (simp add: request_def tick_def)
qed

lemma request_ok:
  "no_faults w \<Longrightarrow> request op w = (case op (tick w) of (x, w') \<Rightarrow> (Inr x, w'))"
  by (cases "faults w") (auto simp: request_unfold no_faults_def)

subsection \<open>White space, \<open>parseInt\<close> and \<open>toString\<close>\<close>

lemma all_dropWhile: "list_all P (dropWhile P s) = list_all P s"
  by (induction s) simp_all

lemma trim_empty_iff: "trim s = [] \<longleftrightarrow> list_all is_white s"
  using all_dropWhile[of is_white s]
  by (simp add: trim_def dropWhile_eq_Nil_conv list_all_iff)

lemma of_char_digit_char: "d < 10 \<Longrightarrow> of_char (digit_char d) = 48 + d"
  by (auto simp: digit_char_def numeral_eq_Suc less_Suc_eq)

lemma is_digit_digit_char: "d < 10 \<Longrightarrow> is_digit (digit_char d)"
  by (simp add: is_digit_def of_char_digit_char)

lemma digits_value_snoc:
  "digits_value acc (cs @ [c]) = 10 * digits_value acc cs + (of_char c - 48)"
  by (induction cs arbitrary: acc) simp_all

lemma nat_digits_all_digits: "list_all is_digit (nat_digits n)"
proof (induction n rule: nat_digits.induct)
  case (1 n)
  show ?case
  proof (cases "n < 10")
    case True
    then show ?thesis by (simp add: nat_digits.simps[of n] is_digit_digit_char)
  next
    case False
    with "1" show ?thesis by (simp add: nat_digits.simps[of n] is_digit_digit_char)
  qed
qed

lemma nat_digits_not_Nil: "nat_digits n \<noteq> []"
  by (simp add: nat_digits.simps[of n])

lemma digits_value_nat_digits: "digits_value 0 (nat_digits n) = n"
proof (induction n rule: nat_digits.induct)
  case (1 n)
  show ?case
  proof (cases "n < 10")
    case True
    then show ?thesis by (simp add: nat_digits.simps[of n] of_char_digit_char)
  next
    case False
    with "1" show ?thesis
      by (simp add: nat_digits.simps[of n] digits_value_snoc of_char_digit_char)
  qed
qed

lemma is_digit_plain: "is_digit c \<Longrightarrow> \<not> is_white c \<and> c \<noteq> CHR ''-'' \<and> c \<noteq> CHR ''+''"
  by (auto simp: is_digit_def is_white_def)

lemma parseInt_digits:
  assumes "list_all is_digit ds" and "ds \<noteq> []"
  shows "parseInt ds = Some (int (digits_value 0 ds))"
    and "parseInt (CHR ''-'' # ds) = Some (- int (digits_value 0 ds))"
proof -
  obtain c cs where ds: "ds = c # cs" using assms(2) by (cases ds) auto
  with assms(1) have c: "is_digit c" by simp
  have tw: "takeWhile is_digit ds = ds" using assms(1) by (simp add: list_all_iff)
  from c have plain: "\<not> is_white c" "c \<noteq> CHR ''-''" "c \<noteq> CHR ''+''"
    using is_digit_plain by blast+
  show "parseInt ds = Some (int (digits_value 0 ds))"
    using plain assms(2) tw unfolding parseInt_def by (simp add: ds)
  have "\<not> is_white CHR ''-''" by (simp add: is_white_def)
  then show "parseInt (CHR ''-'' # ds) = Some (- int (digits_value 0 ds))"
    by (simp add: parseInt_def tw assms(2))
qed

text \<open>
  What \<open>toString\<close> prints, \<open>parseInt\<close> reads back.
\<close>

lemma parseInt_toString: "parseInt (toString i) = Some i"
  using parseInt_digits[OF nat_digits_all_digits nat_digits_not_Nil]
  by (simp add: toString_def digits_value_nat_digits)

lemma js_gt_expired: "js_gt now (parseInt (expires_at r)) = expired now r"
  by (simp add: js_gt_def expired_def split: option.splits)

lemma generateSessionToken_not_Nil: "generateSessionToken rnd \<noteq> []"
  by (simp add: generateSessionToken_def hex2_def upt_rec[of 0 32])

subsection \<open>Deleting in a loop\<close>

lemma delete_each_where: "delete_each xs = delete_where (\<lambda>_. True) xs"
  by (induction xs) simp_all

lemma delete_sessions_where: "delete_sessions xs = delete_where (\<lambda>r. \<not> is_hash_row r) xs"
  by (induction xs) (simp_all add: is_hash_row_def)

lemma cleanup_each_where:
  "cleanup_each now xs = delete_where (\<lambda>r. \<not> is_hash_row r \<and> expired now r) xs"
  by (induction xs) (simp_all add: is_hash_row_def js_gt_expired)

lemma deleteById_cases:
  assumes "deleteAdminSessionById i w = (res, w')"
  shows "(res = Inl StoreError \<and> w' = tick w)
       \<or> (res = Inr () \<and> w' = (tick w)\<lparr>db := filter (\<lambda>r. id_pk r \<noteq> i) (db w)\<rparr>)"
  using assms by (auto simp: deleteAdminSessionById_def request_unfold split: if_splits)

lemma deleteById_ok:
  "no_faults w \<Longrightarrow>
   deleteAdminSessionById i w = (Inr (), (tick w)\<lparr>db := filter (\<lambda>r. id_pk r \<noteq> i) (db w)\<rparr>)"
  by (simp add: deleteAdminSessionById_def request_ok)

text \<open>
  What a deleting loop has done when it stops, with or without an error: it has deleted
  the rows under a set \<open>D\<close> of the keys it was to delete, all of them when it ran to its
  end.
\<close>

lemma delete_where_effect:
  "delete_where P xs w = (res, w') \<Longrightarrow>
   \<exists>D. D \<subseteq> id_pk ` {x \<in> set xs. P x}
     \<and> (res = Inr () \<longrightarrow> D = id_pk ` {x \<in> set xs. P x})
     \<and> db w' = filter (\<lambda>r. id_pk r \<notin> D) (db w)
     \<and> next_id w' = next_id w \<and> localStorage w' = localStorage w"
proof (induction xs arbitrary: w)
  case Nil
  then show ?case by (auto simp: ret_def intro: exI[of _ "{}"])
next
  case (Cons s ss)
  show ?case
  proof (cases "P s")
    case False
    with Cons.prems have "delete_where P ss w = (res, w')" by simp
    from Cons.IH[OF this] obtain D where
      D: "D \<subseteq> id_pk ` {x \<in> set ss. P x}"
         "res = Inr () \<longrightarrow> D = id_pk ` {x \<in> set ss. P x}"
         "db w' = filter (\<lambda>r. id_pk r \<notin> D) (db w)"
         "next_id w' = next_id w" "localStorage w' = localStorage w"
      by blast
    have eq: "{x \<in> set (s # ss). P x} = {x \<in> set ss. P x}" using False by auto
    show ?thesis unfolding eq using D by blast
  next
    case True
    obtain r1 w1 where d: "deleteAdminSessionById (id_pk s) w = (r1, w1)"
      by (cases "deleteAdminSessionById (id_pk s) w")
    have eq: "id_pk ` {x \<in> set (s # ss). P x} = insert (id_pk s) (id_pk ` {x \<in> set ss. P x})"
      using True by auto
    from deleteById_cases[OF d] show ?thesis
    proof
      assume f: "r1 = Inl StoreError \<and> w1 = tick w"
      with d True Cons.prems have "res = Inl StoreError" "w' = tick w"
        by (simp_all add: await_def)
      then show ?thesis by (auto intro: exI[of _ "{}"])
    next
      assume s: "r1 = Inr () \<and> w1 = (tick w)\<lparr>db := filter (\<lambda>r. id_pk r \<noteq> id_pk s) (db w)\<rparr>"
      with d True Cons.prems have "delete_where P ss w1 = (res, w')"
        by (simp add: await_def)
      from Cons.IH[OF this] obtain D where
        D: "D \<subseteq> id_pk ` {x \<in> set ss. P x}"
           "res = Inr () \<longrightarrow> D = id_pk ` {x \<in> set ss. P x}"
           "db w' = filter (\<lambda>r. id_pk r \<notin> D) (db w1)"
           "next_id w' = next_id w1" "localStorage w' = localStorage w1"
        by blast
      have "db w' = filter (\<lambda>r. id_pk r \<notin> insert (id_pk s) D) (db w)"
        using D(3) s by (auto intro: filter_cong)
      moreover have "next_id w' = next_id w" "localStorage w' = localStorage w"
        using D(4,5) s by simp_all
      ultimately show ?thesis unfolding eq using D(1,2)
        by (intro exI[of _ "insert (id_pk s) D"]) auto
    qed
  qed
qed

text \<open>
  When no request fails, a deleting loop runs to its end.
\<close>

lemma delete_where_runs:
  "no_faults w \<Longrightarrow> \<exists>w'. delete_where P xs w = (Inr (), w') \<and> no_faults w'"
proof (induction xs arbitrary: w)
  case Nil
  then show ?case by (simp add: ret_def)
next
  case (Cons s ss)
  let ?w1 = "(tick w)\<lparr>db := filter (\<lambda>r. id_pk r \<noteq> id_pk s) (db w)\<rparr>"
  from Cons.prems have "no_faults ?w1" by simp
  from Cons.IH[OF this] Cons.IH[OF Cons.prems] Cons.prems show ?case
    by (auto simp: await_def deleteById_ok)
qed

lemma delete_where_ok:
  assumes "no_faults w"
  shows "\<exists>w'. delete_where P xs w = (Inr (), w') \<and> no_faults w'
     \<and> db w' = filter (\<lambda>r. id_pk r \<notin> id_pk ` {x \<in> set xs. P x}) (db w)
     \<and> next_id w' = next_id w \<and> localStorage w' = localStorage w"
proof -
  from delete_where_runs[OF assms] obtain w' where
    r: "delete_where P xs w = (Inr (), w')" and n: "no_faults w'" by blast
  from delete_where_effect[OF r] r n show ?thesis by auto
qed

subsection \<open>Single requests\<close>

lemma is_hash_row_simps [simp]:
  "is_hash_row (hash_row h n)" "\<not> is_hash_row (session_row tok now_ms n)"
  by (simp_all add: is_hash_row_def hash_row_def session_row_def PASSWORD_HASH_USER_ID_def)

lemma row_ids [simp]: "id_pk (hash_row h n) = n" "id_pk (session_row tok now_ms n) = n"
  by (simp_all add: hash_row_def session_row_def)

lemma getAll_cases:
  "getAllAdminSession w = (res, w') \<Longrightarrow> w' = tick w \<and> (res = Inl StoreError \<or> res = Inr (db w))"
  by (auto simp: getAllAdminSession_def request_unfold split: if_splits)

lemma getAll_ok: "no_faults w \<Longrightarrow> getAllAdminSession w = (Inr (db w), tick w)"
  by (simp add: getAllAdminSession_def request_ok)

lemma getByUserId_cases:
  "getAdminSessionByUserId u w = (res, w') \<Longrightarrow>
   w' = tick w \<and> (res = Inl StoreError \<or> res = Inr (filter (\<lambda>r. user_id r = u) (db w)))"
  by (auto simp: getAdminSessionByUserId_def request_unfold split: if_splits)

lemma getByUserId_ok:
  "no_faults w \<Longrightarrow>
   getAdminSessionByUserId u w = (Inr (filter (\<lambda>r. user_id r = u) (db w)), tick w)"
  by (simp add: getAdminSessionByUserId_def request_ok)

lemma getByToken_cases:
  "getAdminSessionBySessionToken t w = (res, w') \<Longrightarrow>
   w' = tick w \<and> (res = Inl StoreError \<or> res = Inr (filter (\<lambda>r. session_token r = t) (db w)))"
  by (auto simp: getAdminSessionBySessionToken_def request_unfold split: if_splits)

lemma insert_cases:
  "insertAdminSession rs w = (res, w') \<Longrightarrow>
   (res = Inl StoreError \<and> w' = tick w)
   \<or> (res = Inr (assign_ids (next_id w) rs)
      \<and> w' = (tick w)\<lparr>db := db w @ assign_ids (next_id w) rs, next_id := next_id w + length rs\<rparr>)"
  by (auto simp: insertAdminSession_def request_unfold Let_def split: if_splits)

lemma insert_ok:
  "no_faults w \<Longrightarrow>
   insertAdminSession rs w =
     (Inr (assign_ids (next_id w) rs),
      (tick w)\<lparr>db := db w @ assign_ids (next_id w) rs, next_id := next_id w + length rs\<rparr>)"
  by (simp add: insertAdminSession_def request_ok Let_def)

lemma deleteByToken_cases:
  assumes "deleteAdminSessionBySessionToken t w = (res, w')"
  shows "(res = Inl StoreError \<and> w' = tick w)
       \<or> (res = Inr () \<and> w' = (tick w)\<lparr>db := filter (\<lambda>r. session_token r \<noteq> t) (db w)\<rparr>)"
  using assms by (auto simp: deleteAdminSessionBySessionToken_def request_unfold split: if_splits)

lemma deleteByToken_ok:
  "no_faults w \<Longrightarrow>
   deleteAdminSessionBySessionToken t w
     = (Inr (), (tick w)\<lparr>db := filter (\<lambda>r. session_token r \<noteq> t) (db w)\<rparr>)"
  by (simp add: deleteAdminSessionBySessionToken_def request_ok)

lemma hash_filter: "filter (\<lambda>r. user_id r = PASSWORD_HASH_USER_ID) rows = filter is_hash_row rows"
  by (induction rows) (simp_all add: is_hash_row_def)

subsection \<open>Reading the stored hash\<close>

text \<open>
  \<open>getStoredPasswordHash\<close> makes one request and never throws: a failed read and a
  table without password-hash row both come back as \<open>null\<close>.
\<close>

lemma getStoredPasswordHash_eq:
  "getStoredPasswordHash w =
     (Inr (if faults w \<noteq> [] \<and> hd (faults w) then None else stored_hash (db w)), tick w)"
  by (auto simp: getStoredPasswordHash_def try_catch_def await_def ret_def stored_hash_def
      getAdminSessionByUserId_def request_unfold hash_filter split: list.splits)

lemma isPasswordSet_eq:
  "isPasswordSet w =
     (Inr (\<not> (faults w \<noteq> [] \<and> hd (faults w)) \<and> stored_hash (db w) \<noteq> None), tick w)"
  by (simp add: isPasswordSet_def await_def getStoredPasswordHash_eq ret_def)

lemma stored_hash_None: "stored_hash rows = None \<longleftrightarrow> filter is_hash_row rows = []"
  by (simp add: stored_hash_def split: list.splits)

lemma isPasswordSet_no_hash:
  "filter is_hash_row (db w) = [] \<Longrightarrow> fst (isPasswordSet w) = Inr False"
  by (simp add: isPasswordSet_eq stored_hash_None)

lemma isPasswordSet_hash:
  "no_faults w \<Longrightarrow> filter is_hash_row (db w) \<noteq> [] \<Longrightarrow> fst (isPasswordSet w) = Inr True"
  by (cases "faults w") (auto simp: isPasswordSet_eq stored_hash_None no_faults_def)

subsection \<open>Creating the session\<close>

lemma create_session_steps:
  assumes "create_session rnd now_ms w = (Inr (Some tok), w')"
  shows "\<exists>w2 ys w3. delete_sessions (db w) (tick w) = (Inr (), w2)
     \<and> insertAdminSession [session_row tok now_ms 0] w2 = (Inr ys, w3)
     \<and> w' = setItem SESSION_TOKEN_KEY tok w3 \<and> tok = generateSessionToken rnd"
  using assms
  by (auto simp: create_session_def try_catch_def await_def Let_def ret_def session_row_def
      dest!: getAll_cases split: prod.splits sum.splits)

lemma create_session_effect:
  assumes "create_session rnd now_ms w = (Inr (Some tok), w')"
  shows "tok = generateSessionToken rnd"
    and "db w' = filter (\<lambda>r. id_pk r \<notin> id_pk ` {x \<in> set (db w). \<not> is_hash_row x}) (db w)
                 @ [session_row tok now_ms (next_id w)]"
    and "next_id w' = Suc (next_id w)"
    and "localStorage w' = (localStorage w)(SESSION_TOKEN_KEY \<mapsto> tok)"
proof -
  from create_session_steps[OF assms] obtain w2 ys w3 where
    d: "delete_sessions (db w) (tick w) = (Inr (), w2)"
    and i: "insertAdminSession [session_row tok now_ms 0] w2 = (Inr ys, w3)"
    and w': "w' = setItem SESSION_TOKEN_KEY tok w3" and t: "tok = generateSessionToken rnd"
    by blast
  from delete_where_effect[OF d[unfolded delete_sessions_where]]
  have w2: "db w2 = filter (\<lambda>r. id_pk r \<notin> id_pk ` {x \<in> set (db w). \<not> is_hash_row x}) (db w)"
      "next_id w2 = next_id w" "localStorage w2 = localStorage w"
    by auto
  from insert_cases[OF i]
  have w3: "w3 = (tick w2)\<lparr>db := db w2 @ assign_ids (next_id w2) [session_row tok now_ms 0],
                          next_id := next_id w2 + 1\<rparr>"
    by auto
  show "tok = generateSessionToken rnd" by (rule t)
  show "db w' = filter (\<lambda>r. id_pk r \<notin> id_pk ` {x \<in> set (db w). \<not> is_hash_row x}) (db w)
                 @ [session_row tok now_ms (next_id w)]"
    by (simp add: w' w3 w2 setItem_def session_row_def)
  show "next_id w' = Suc (next_id w)" by (simp add: w' w3 w2 setItem_def)
  show "localStorage w' = (localStorage w)(SESSION_TOKEN_KEY \<mapsto> tok)"
    by (simp add: w' w3 w2 setItem_def)
qed

lemma create_session_runs:
  assumes "no_faults w"
  shows "\<exists>w'. create_session rnd now_ms w = (Inr (Some (generateSessionToken rnd)), w') \<and> no_faults w'"
proof -
  from delete_where_runs[of "tick w" "\<lambda>r. \<not> is_hash_row r" "db w"] assms obtain w2 where
    d: "delete_sessions (db w) (tick w) = (Inr (), w2)" and n2: "no_faults w2"
    by (auto simp: delete_sessions_where)
  show ?thesis
    using assms d n2
    by (simp add: create_session_def try_catch_def await_def Let_def getAll_ok insert_ok setItem_def)
qed

lemma create_session_never_throws:
  "fst (create_session rnd now_ms w) = Inr None
   \<or> fst (create_session rnd now_ms w) = Inr (Some (generateSessionToken rnd))"
  by (auto simp: create_session_def try_catch_def await_def Let_def ret_def
      split: prod.splits sum.splits)

lemma sessions_after_create:
  assumes "create_session rnd now_ms w = (Inr (Some tok), w')"
  shows "filter (\<lambda>r. \<not> is_hash_row r) (db w') = [session_row tok now_ms (next_id w)]"
    and "filter is_hash_row (db w') =
           filter (\<lambda>r. is_hash_row r \<and> id_pk r \<notin> id_pk ` {x \<in> set (db w). \<not> is_hash_row x}) (db w)"
proof -
  have "filter (\<lambda>r. id_pk r \<notin> id_pk ` {x \<in> set (db w). \<not> is_hash_row x} \<and> \<not> is_hash_row r) (db w) = []"
    by (auto simp: filter_empty_conv)
  then show "filter (\<lambda>r. \<not> is_hash_row r) (db w') = [session_row tok now_ms (next_id w)]"
    by (simp add: create_session_effect(2)[OF assms])
  show "filter is_hash_row (db w') =
           filter (\<lambda>r. is_hash_row r \<and> id_pk r \<notin> id_pk ` {x \<in> set (db w). \<not> is_hash_row x}) (db w)"
    by (auto simp: create_session_effect(2)[OF assms] intro: filter_cong)
qed

subsection \<open>Storing the hash\<close>

lemma storePasswordHash_steps:
  assumes "storePasswordHash h w = (Inr True, w')"
  shows "\<exists>w2 ys. delete_each (filter is_hash_row (db w)) (tick w) = (Inr (), w2)
     \<and> insertAdminSession [hash_row h 0] w2 = (Inr ys, w')"
  using assms
  by (auto simp: storePasswordHash_def try_catch_def await_def ret_def hash_row_def hash_filter
      dest!: getByUserId_cases split: prod.splits sum.splits)

lemma storePasswordHash_effect:
  assumes "storePasswordHash h w = (Inr True, w')"
  shows "db w' = filter (\<lambda>r. id_pk r \<notin> id_pk ` {x \<in> set (db w). is_hash_row x}) (db w)
                 @ [hash_row h (next_id w)]"
    and "next_id w' = Suc (next_id w)"
    and "localStorage w' = localStorage w"
proof -
  from storePasswordHash_steps[OF assms] obtain w2 ys where
    d: "delete_each (filter is_hash_row (db w)) (tick w) = (Inr (), w2)"
    and i: "insertAdminSession [hash_row h 0] w2 = (Inr ys, w')"
    by blast
  from delete_where_effect[OF d[unfolded delete_each_where]]
  have w2: "db w2 = filter (\<lambda>r. id_pk r \<notin> id_pk ` {x \<in> set (db w). is_hash_row x}) (db w)"
      "next_id w2 = next_id w" "localStorage w2 = localStorage w"
    by auto
  from insert_cases[OF i]
  have w': "w' = (tick w2)\<lparr>db := db w2 @ assign_ids (next_id w2) [hash_row h 0],
                          next_id := next_id w2 + 1\<rparr>"
    by auto
  show "db w' = filter (\<lambda>r. id_pk r \<notin> id_pk ` {x \<in> set (db w). is_hash_row x}) (db w)
                 @ [hash_row h (next_id w)]"
    by (simp add: w' w2 hash_row_def)
  show "next_id w' = Suc (next_id w)" by (simp add: w' w2)
  show "localStorage w' = localStorage w" by (simp add: w' w2)
qed

lemma storePasswordHash_runs:
  assumes "no_faults w"
  shows "\<exists>w'. storePasswordHash h w = (Inr True, w') \<and> no_faults w'"
proof -
  from delete_where_runs[of "tick w" "\<lambda>_. True" "filter is_hash_row (db w)"] assms obtain w2 where
    d: "delete_each (filter is_hash_row (db w)) (tick w) = (Inr (), w2)" and n2: "no_faults w2"
    by (auto simp: delete_each_where)
  show ?thesis
    using assms d n2
    by (simp add: storePasswordHash_def try_catch_def await_def getByUserId_ok insert_ok
        hash_filter ret_def)
qed

lemma storePasswordHash_never_throws:
  "fst (storePasswordHash h w) = Inr True \<or> fst (storePasswordHash h w) = Inr False"
  by (auto simp: storePasswordHash_def try_catch_def await_def ret_def
      split: prod.splits sum.splits)

subsection \<open>Login\<close>

lemma authenticateAdmin_success:
  assumes "authenticateAdmin sha rnd now_ms password w = (Inr (Some tok), w')"
  shows "\<exists>w1. create_session rnd now_ms w1 = (Inr (Some tok), w')"
  using assms
  by (auto simp: authenticateAdmin_def await_def ret_def getStoredPasswordHash_eq Let_def
      split: if_splits option.splits prod.splits sum.splits)

lemma validate_only_hash_rows:
  assumes "t \<noteq> []" and "list_all is_hash_row (filter (\<lambda>r. session_token r = t) (db w))"
  shows "fst (validateSession (Some t) now_ms w) = Inr False"
proof -
  obtain res w1 where g: "getAdminSessionBySessionToken t w = (res, w1)"
    by (cases "getAdminSessionBySessionToken t w")
  from getByToken_cases[OF g] assms show ?thesis
    by (auto simp: validateSession_def try_catch_def await_def ret_def g is_hash_row_def
        split: list.splits)
qed

lemma one_session_after_login:
  assumes "authenticateAdmin sha rnd now_ms password w = (Inr (Some tok), w')"
  shows "filter (\<lambda>r. user_id r \<noteq> PASSWORD_HASH_USER_ID) (db w')
         = [\<lparr>id_pk = next_id w' - 1, user_id = ''admin'', session_token = tok,
             expires_at = toString ((now_ms + SESSION_DURATION_MS) div 1000)\<rparr>]"
proof -
  from authenticateAdmin_success[OF assms] obtain w1 where
    c: "create_session rnd now_ms w1 = (Inr (Some tok), w')" by blast
  have "filter (\<lambda>r. user_id r \<noteq> PASSWORD_HASH_USER_ID) (db w') = filter (\<lambda>r. \<not> is_hash_row r) (db w')"
    by (rule filter_cong) (simp_all add: is_hash_row_def)
  then show ?thesis
    using sessions_after_create(1)[OF c] create_session_effect(3)[OF c]
    by (simp add: session_row_def)
qed

lemma old_token_rejected:
  assumes new: "authenticateAdmin sha rnd now_ms password w = (Inr (Some tok), w')"
    and old: "authenticateAdmin sha0 rnd0 t0 p0 v = (Inr (Some old), v')"
    and diff: "old \<noteq> tok"
  shows "fst (validateSession (Some old) t w') = Inr False"
proof -
  from authenticateAdmin_success[OF old] obtain v1 where
    "create_session rnd0 t0 v1 = (Inr (Some old), v')" by blast
  from create_session_effect(1)[OF this] have ne: "old \<noteq> []"
    by (simp add: generateSessionToken_not_Nil)
  from authenticateAdmin_success[OF new] obtain w1 where
    c: "create_session rnd now_ms w1 = (Inr (Some tok), w')" by blast
  have "list_all is_hash_row (filter (\<lambda>r. session_token r = old) (db w'))"
    using diff by (auto simp: create_session_effect(2)[OF c] list_all_iff session_row_def)
  from validate_only_hash_rows[OF ne this] show ?thesis .
qed

text \<open>
  C3.  After every call of \<open>authenticateAdmin\<close> that returns a token, whatever
  requests failed before or during it, the rows of the table that are not password-hash
  rows are exactly one: the session just inserted, with \<open>user_id = "admin"\<close>, the
  returned token and an expiry 24 hours ahead.  A token that an earlier successful login
  returned, and that differs from the new one, is rejected by \<open>validateSession\<close> in
  the world the login leaves.
\<close>

theorem login_leaves_one_session:
  assumes "authenticateAdmin sha rnd now_ms password w = (Inr (Some tok), w')"
  shows "filter (\<lambda>r. user_id r \<noteq> PASSWORD_HASH_USER_ID) (db w')
           = [\<lparr>id_pk = next_id w' - 1, user_id = ''admin'', session_token = tok,
               expires_at = toString ((now_ms + SESSION_DURATION_MS) div 1000)\<rparr>]
         \<and> (authenticateAdmin sha0 rnd0 t0 p0 v = (Inr (Some old), v') \<and> old \<noteq> tok
              \<longrightarrow> fst (validateSession (Some old) t w') = Inr False)"
  using one_session_after_login[OF assms] old_token_rejected[OF assms]
  by blast




text \<open>
  First-time setup, which \<open>authenticateAdmin\<close> enters whenever
  \<open>getStoredPasswordHash\<close> returns \<open>null\<close>: if no later request fails and the keys
  in the table are older than the next key, the call returns a token, and the table then
  holds the new password-hash row and the new session, and nothing else.
\<close>

lemma first_time_setup:
  assumes none: "fst (getStoredPasswordHash w) = Inr None"
    and nf: "no_faults (tick w)" and nb: "\<not> list_all is_white password"
    and fresh: "list_all (\<lambda>r. id_pk r < next_id w) (db w)"
  shows "\<exists>w'. authenticateAdmin sha rnd now_ms password w = (Inr (Some (generateSessionToken rnd)), w')
     \<and> db w' = [hash_row (hashPassword sha password) (next_id w),
                session_row (generateSessionToken rnd) now_ms (Suc (next_id w))]
     \<and> next_id w' = next_id w + 2
     \<and> localStorage w' = (localStorage w)(SESSION_TOKEN_KEY \<mapsto> generateSessionToken rnd)
     \<and> no_faults w'"
proof -
  let ?h = "hashPassword sha password"
  define rest where "rest = filter (\<lambda>r. id_pk r \<notin> id_pk ` {x \<in> set (db w). is_hash_row x}) (db w)"
  have g: "getStoredPasswordHash w = (Inr None, tick w)"
    using none by (simp add: getStoredPasswordHash_eq)
  from storePasswordHash_runs[OF nf, of ?h] obtain w2 where
    s: "storePasswordHash ?h (tick w) = (Inr True, w2)" and n2: "no_faults w2" by auto
  from create_session_runs[OF n2, of rnd now_ms] obtain w3 where
    c: "create_session rnd now_ms w2 = (Inr (Some (generateSessionToken rnd)), w3)"
    and n3: "no_faults w3" by blast
  have a: "authenticateAdmin sha rnd now_ms password w = (Inr (Some (generateSessionToken rnd)), w3)"
    using nb g s c by (auto simp: authenticateAdmin_def await_def trim_empty_iff Let_def)
  have db2: "db w2 = rest @ [hash_row ?h (next_id w)]"
    using storePasswordHash_effect(1)[OF s] by (simp add: rest_def)
  have n2': "next_id w2 = Suc (next_id w)" "localStorage w2 = localStorage w"
    by (simp add: storePasswordHash_effect(2)[OF s]) (simp add: storePasswordHash_effect(3)[OF s])
  have sessions_only: "\<forall>x\<in>set rest. \<not> is_hash_row x"
  proof (intro ballI notI)
    fix x assume x: "x \<in> set rest" and h: "is_hash_row x"
    from x have "x \<in> set (db w)" by (simp add: rest_def)
    with h have "id_pk x \<in> id_pk ` {x \<in> set (db w). is_hash_row x}" by blast
    with x show False by (simp add: rest_def)
  qed
  have old_keys: "\<forall>x\<in>set rest. id_pk x < next_id w"
    using fresh by (simp add: rest_def list_all_iff)
  have nonhash2: "{x \<in> set (db w2). \<not> is_hash_row x} = set rest"
    using sessions_only by (auto simp: db2)
  have notin: "next_id w \<notin> id_pk ` set rest"
    using old_keys by auto
  have gone: "filter (\<lambda>r. id_pk r \<notin> id_pk ` set rest) rest = []"
    by (simp add: filter_empty_conv)
  have "db w3 = filter (\<lambda>r. id_pk r \<notin> id_pk ` set rest) (db w2)
                @ [session_row (generateSessionToken rnd) now_ms (next_id w2)]"
    using create_session_effect(2)[OF c] unfolding nonhash2 .
  then have db3: "db w3 = [hash_row ?h (next_id w),
                session_row (generateSessionToken rnd) now_ms (Suc (next_id w))]"
    using notin by (simp add: db2 n2' gone)
  show ?thesis
    using a db3 n3 create_session_effect(3,4)[OF c] n2' by simp
qed

text \<open>The first login: no password-hash row, no failing request.\<close>

lemma bootstrap:
  assumes nf: "no_faults w" and nb: "\<not> list_all is_white password"
    and nh: "filter is_hash_row (db w) = []"
    and fresh: "list_all (\<lambda>r. id_pk r < next_id w) (db w)"
  shows "\<exists>w'. authenticateAdmin sha rnd now_ms password w = (Inr (Some (generateSessionToken rnd)), w')
     \<and> db w' = [hash_row (hashPassword sha password) (next_id w),
                session_row (generateSessionToken rnd) now_ms (Suc (next_id w))]
     \<and> next_id w' = next_id w + 2
     \<and> localStorage w' = (localStorage w)(SESSION_TOKEN_KEY \<mapsto> generateSessionToken rnd)
     \<and> no_faults w'"
proof (rule first_time_setup[OF _ _ nb fresh])
  show "fst (getStoredPasswordHash w) = Inr None"
    using nh by (simp add: getStoredPasswordHash_eq stored_hash_None)
  show "no_faults (tick w)" using nf by simp
qed

text \<open>
  The same setup is entered when a password is set but the read of its hash fails once:
  any password that is not blank then gets in and becomes the admin password.
\<close>

lemma failed_read_sets_password:
  assumes "faults w = True # fs" and "True \<notin> set fs"
    and "\<not> list_all is_white password"
    and "list_all (\<lambda>r. id_pk r < next_id w) (db w)"
  shows "\<exists>w'. authenticateAdmin sha rnd now_ms password w = (Inr (Some (generateSessionToken rnd)), w')
     \<and> db w' = [hash_row (hashPassword sha password) (next_id w),
                session_row (generateSessionToken rnd) now_ms (Suc (next_id w))]"
proof -
  have "fst (getStoredPasswordHash w) = Inr None"
    using assms(1) by (simp add: getStoredPasswordHash_eq)
  moreover have "no_faults (tick w)"
    using assms(1,2) by (simp add: no_faults_def)
  ultimately show ?thesis
    using first_time_setup[OF _ _ assms(3,4), of sha rnd now_ms] by blast
qed

text \<open>
  A login with the stored password, no request failing, returns a token.
\<close>

lemma login_with_stored_password:
  assumes nf: "no_faults w" and nb: "\<not> list_all is_white password"
    and h: "stored_hash (db w) = Some (hashPassword sha password)"
  shows "\<exists>w'. authenticateAdmin sha rnd now_ms password w
            = (Inr (Some (generateSessionToken rnd)), w') \<and> no_faults w'"
proof -
  have g: "getStoredPasswordHash w = (Inr (Some (hashPassword sha password)), tick w)"
    using nf h by (cases "faults w") (auto simp: getStoredPasswordHash_eq no_faults_def)
  from create_session_runs[of "tick w" rnd now_ms] nf obtain w' where
    c: "create_session rnd now_ms (tick w) = (Inr (Some (generateSessionToken rnd)), w')"
    and n: "no_faults w'" by auto
  have "authenticateAdmin sha rnd now_ms password w = (Inr (Some (generateSessionToken rnd)), w')"
    using nb g c by (auto simp: authenticateAdmin_def await_def trim_empty_iff Let_def)
  with n show ?thesis by blast
qed

text \<open>
  C2, amended.  For every password that is neither empty nor all white space, and
  when no store request fails, \<open>authenticateAdmin\<close> on an empty table returns a token;
  the table then holds the password-hash row with the digest of that password and one
  session row with \<open>user_id = "admin"\<close>, the token is in \<open>localStorage\<close>, and
  \<open>isPasswordSet\<close> returns true.
\<close>

theorem first_login_bootstraps:
  assumes "db w = []" and "no_faults w" and "\<not> list_all is_white password"
  shows "\<exists>w'. authenticateAdmin sha rnd now_ms password w = (Inr (Some (generateSessionToken rnd)), w')
     \<and> db w' = [\<lparr>id_pk = next_id w, user_id = PASSWORD_HASH_USER_ID,
                  session_token = hashPassword sha password, expires_at = ''0''\<rparr>,
                \<lparr>id_pk = Suc (next_id w), user_id = ''admin'',
                  session_token = generateSessionToken rnd,
                  expires_at = toString ((now_ms + SESSION_DURATION_MS) div 1000)\<rparr>]
     \<and> getSessionToken w' = Some (generateSessionToken rnd)
     \<and> fst (isPasswordSet w') = Inr True
     \<and> length (filter (\<lambda>r. user_id r = ''admin'') (db w')) = 1"
proof -
  from bootstrap[OF assms(2,3), of sha rnd now_ms] assms(1) obtain w' where
    a: "authenticateAdmin sha rnd now_ms password w = (Inr (Some (generateSessionToken rnd)), w')"
    and d: "db w' = [hash_row (hashPassword sha password) (next_id w),
                session_row (generateSessionToken rnd) now_ms (Suc (next_id w))]"
    and l: "localStorage w' = (localStorage w)(SESSION_TOKEN_KEY \<mapsto> generateSessionToken rnd)"
    and n: "no_faults w'"
    by auto
  have "fst (isPasswordSet w') = Inr True"
    by (rule isPasswordSet_hash[OF n]) (simp add: d)
  with a d l show ?thesis
    by (simp add: hash_row_def session_row_def getSessionToken_def getItem_def
        PASSWORD_HASH_USER_ID_def)
qed

subsection \<open>Logout\<close>

lemma logout_slot:
  "fst (logoutAdmin w) = Inr () \<and> getSessionToken (snd (logoutAdmin w)) = None"
  by (auto simp: logoutAdmin_def getSessionToken_def getItem_def removeItem_def await_def
      try_catch_def ret_def deleteAdminSessionBySessionToken_def request_unfold Let_def
      split: option.splits prod.splits sum.splits if_splits)

lemma validate_no_token:
  "getSessionToken w = None \<Longrightarrow> validateSession None now_ms w = (Inr False, w)"
  by (simp add: validateSession_def getSessionToken_def)

text \<open>
  C8.  \<open>logoutAdmin\<close> returns normally and leaves the token slot of \<open>localStorage\<close>
  empty in every world: whether or not a token was in the slot and whether the request
  that deletes the session row succeeds or fails.  \<open>validateSession()\<close> without an
  argument, called next, returns false and changes nothing.
\<close>

theorem logoutAdmin_always_clears:
  "fst (logoutAdmin w) = Inr ()
   \<and> getSessionToken (snd (logoutAdmin w)) = None
   \<and> validateSession None now_ms (snd (logoutAdmin w)) = (Inr False, snd (logoutAdmin w))"
  using logout_slot[of w] validate_no_token[of "snd (logoutAdmin w)" now_ms] by simp

text \<open>
  In \<open>w_logged_in\<close> the request that deletes the session row fails: the row stays in
  the table, the slot is cleared all the same.
\<close>

theorem logoutAdmin_always_clears_witness:
  "fst (logoutAdmin w_logged_in) = Inr ()
   \<and> getSessionToken (snd (logoutAdmin w_logged_in)) = None
   \<and> db (snd (logoutAdmin w_logged_in)) = db w_logged_in
   \<and> fst (validateSession None 0 (snd (logoutAdmin w_logged_in))) = Inr False"
  using logoutAdmin_always_clears[of w_logged_in 0]
  by (simp add: w_logged_in_def logoutAdmin_def getItem_def removeItem_def await_def
      try_catch_def ret_def deleteAdminSessionBySessionToken_def request_def SESSION_TOKEN_KEY_def)

lemma logoutAdmin_effect:
  "\<exists>w'. logoutAdmin w = (Inr (), w') \<and> next_id w' = next_id w
     \<and> localStorage w' = (localStorage w)(SESSION_TOKEN_KEY := None)
     \<and> (db w' = db w \<or> (\<exists>t. db w' = filter (\<lambda>r. session_token r \<noteq> t) (db w)))"
proof (cases "\<exists>t. getItem SESSION_TOKEN_KEY w = Some t \<and> t \<noteq> []")
  case False
  then show ?thesis
    by (auto simp: logoutAdmin_def await_def ret_def removeItem_def Let_def split: option.splits)
next
  case True
  then obtain t where t: "getItem SESSION_TOKEN_KEY w = Some t" "t \<noteq> []" by blast
  obtain res w1 where d: "deleteAdminSessionBySessionToken t w = (res, w1)"
    by (cases "deleteAdminSessionBySessionToken t w")
  from deleteByToken_cases[OF d] show ?thesis
  proof
    assume "res = Inl StoreError \<and> w1 = tick w"
    with t d show ?thesis
      by (simp add: logoutAdmin_def await_def ret_def removeItem_def try_catch_def)
  next
    assume "res = Inr () \<and> w1 = (tick w)\<lparr>db := filter (\<lambda>r. session_token r \<noteq> t) (db w)\<rparr>"
    with t d show ?thesis
      by (auto simp: logoutAdmin_def await_def ret_def removeItem_def try_catch_def)
  qed
qed

lemma logoutAdmin_ok:
  assumes "no_faults w"
  shows "\<exists>w'. logoutAdmin w = (Inr (), w') \<and> no_faults w'
     \<and> (\<forall>t. getSessionToken w = Some t \<and> t \<noteq> [] \<longrightarrow> db w' = filter (\<lambda>r. session_token r \<noteq> t) (db w))"
  using assms
  by (auto simp: logoutAdmin_def await_def ret_def removeItem_def try_catch_def Let_def
      deleteByToken_ok getSessionToken_def split: option.splits)

subsection \<open>Password reset\<close>

lemma reset_steps:
  assumes "resetAdminPassword w = (Inr True, w1)"
  shows "\<exists>w2. delete_each (filter is_hash_row (db w)) (tick w) = (Inr (), w2)
     \<and> logoutAdmin w2 = (Inr (), w1)"
  using assms
  by (auto simp: resetAdminPassword_def try_catch_def await_def ret_def hash_filter
      dest!: getByUserId_cases split: prod.splits sum.splits)

lemma reset_effect:
  assumes "resetAdminPassword w = (Inr True, w1)"
  shows "filter is_hash_row (db w1) = []"
    and "localStorage w1 SESSION_TOKEN_KEY = None"
    and "next_id w1 = next_id w"
    and "set (db w1) \<subseteq> set (db w)"
proof -
  from reset_steps[OF assms] obtain w2 where
    d: "delete_each (filter is_hash_row (db w)) (tick w) = (Inr (), w2)"
    and l: "logoutAdmin w2 = (Inr (), w1)" by blast
  from delete_where_effect[OF d[unfolded delete_each_where]]
  have w2: "db w2 = filter (\<lambda>r. id_pk r \<notin> id_pk ` {x \<in> set (db w). is_hash_row x}) (db w)"
    "next_id w2 = next_id w"
    by auto
  have no2: "filter is_hash_row (db w2) = []"
    by (auto simp: w2(1) filter_empty_conv)
  from logoutAdmin_effect[of w2] l have w1:
    "next_id w1 = next_id w2" "localStorage w1 = (localStorage w2)(SESSION_TOKEN_KEY := None)"
    "db w1 = db w2 \<or> (\<exists>t. db w1 = filter (\<lambda>r. session_token r \<noteq> t) (db w2))"
    by auto
  from w1(3) no2 show "filter is_hash_row (db w1) = []"
    by (auto simp: filter_empty_conv)
  show "localStorage w1 SESSION_TOKEN_KEY = None" by (simp add: w1(2))
  show "next_id w1 = next_id w" by (simp add: w1(1) w2(2))
  from w1(3) show "set (db w1) \<subseteq> set (db w)" by (auto simp: w2(1))
qed

lemma reset_runs:
  assumes "no_faults w"
  shows "\<exists>w1. resetAdminPassword w = (Inr True, w1) \<and> no_faults w1"
proof -
  from delete_where_runs[of "tick w" "\<lambda>_. True" "filter is_hash_row (db w)"] assms obtain w2 where
    d: "delete_each (filter is_hash_row (db w)) (tick w) = (Inr (), w2)" and n2: "no_faults w2"
    by (auto simp: delete_each_where)
  from logoutAdmin_ok[OF n2] obtain w1 where
    l: "logoutAdmin w2 = (Inr (), w1)" and n1: "no_faults w1" by blast
  show ?thesis
    using assms d l n1
    by (simp add: resetAdminPassword_def try_catch_def await_def getByUserId_ok hash_filter ret_def)
qed

lemma reset_logs_out:
  assumes nf: "no_faults w" and r: "resetAdminPassword w = (Inr True, w1)"
    and t: "getSessionToken w = Some t" "t \<noteq> []"
  shows "filter (\<lambda>r. session_token r = t) (db w1) = []"
proof -
  from reset_steps[OF r] obtain w2 where
    d: "delete_each (filter is_hash_row (db w)) (tick w) = (Inr (), w2)"
    and l: "logoutAdmin w2 = (Inr (), w1)" by blast
  from delete_where_runs[of "tick w" "\<lambda>_. True" "filter is_hash_row (db w)"] nf d
  have n2: "no_faults w2" by (auto simp: delete_each_where)
  from delete_where_effect[OF d[unfolded delete_each_where]]
  have "localStorage w2 = localStorage w" by auto
  with t have "getSessionToken w2 = Some t" by (simp add: getSessionToken_def getItem_def)
  with logoutAdmin_ok[OF n2] l t(2)
  have "db w1 = filter (\<lambda>r. session_token r \<noteq> t) (db w2)" by auto
  then show ?thesis by (simp add: filter_empty_conv)
qed

text \<open>
  C7.  In a table whose primary keys are as the server makes them:
  \<open>resetAdminPassword\<close> returns true when no request fails; and whenever it returns
  true, no password-hash row is left (however many there were), the token slot is empty,
  the session whose token was in the slot is deleted if no request failed, and
  \<open>isPasswordSet\<close> returns false.  A login that follows with any password that
  is neither empty nor all white space, no request failing, returns a token and leaves
  exactly one password-hash row, which holds the digest of that password;
  \<open>isPasswordSet\<close> then returns true.
\<close>

theorem reset_then_new_password:
  assumes "wf_store w" and "\<not> list_all is_white password"
  shows "(no_faults w \<longrightarrow> (\<exists>w1. resetAdminPassword w = (Inr True, w1) \<and> no_faults w1))
     \<and> (resetAdminPassword w = (Inr True, w1) \<longrightarrow>
          filter (\<lambda>r. user_id r = PASSWORD_HASH_USER_ID) (db w1) = []
        \<and> getSessionToken w1 = None
        \<and> (no_faults w \<and> getSessionToken w = Some t \<and> t \<noteq> []
             \<longrightarrow> filter (\<lambda>r. session_token r = t) (db w1) = [])
        \<and> fst (isPasswordSet w1) = Inr False
        \<and> (no_faults w1 \<longrightarrow>
             (\<exists>w2. authenticateAdmin sha rnd now_ms password w1
                      = (Inr (Some (generateSessionToken rnd)), w2)
                \<and> filter (\<lambda>r. user_id r = PASSWORD_HASH_USER_ID) (db w2)
                      = [\<lparr>id_pk = next_id w1, user_id = PASSWORD_HASH_USER_ID,
                          session_token = hashPassword sha password, expires_at = ''0''\<rparr>]
                \<and> fst (isPasswordSet w2) = Inr True)))"
proof (intro conjI impI)
  assume "no_faults w"
  then show "\<exists>w1. resetAdminPassword w = (Inr True, w1) \<and> no_faults w1" by (rule reset_runs)
next
  assume r: "resetAdminPassword w = (Inr True, w1)"
  note e = reset_effect[OF r]
  show "filter (\<lambda>r. user_id r = PASSWORD_HASH_USER_ID) (db w1) = []"
    using e(1) by (simp add: hash_filter)
  show "getSessionToken w1 = None" using e(2) by (simp add: getSessionToken_def getItem_def)
  show "fst (isPasswordSet w1) = Inr False" by (rule isPasswordSet_no_hash[OF e(1)])
  {
    assume "no_faults w \<and> getSessionToken w = Some t \<and> t \<noteq> []"
    then show "filter (\<lambda>r. session_token r = t) (db w1) = []"
      using reset_logs_out[OF _ r, of t] by simp
  }
  assume n: "no_faults w1"
  have fresh: "list_all (\<lambda>r. id_pk r < next_id w1) (db w1)"
    using assms(1) e(3,4) by (auto simp: wf_store_def list_all_iff)
  from bootstrap[OF n assms(2) e(1) fresh, of sha rnd now_ms] obtain w2 where
    a: "authenticateAdmin sha rnd now_ms password w1 = (Inr (Some (generateSessionToken rnd)), w2)"
    and d: "db w2 = [hash_row (hashPassword sha password) (next_id w1),
                session_row (generateSessionToken rnd) now_ms (Suc (next_id w1))]"
    and n2: "no_faults w2"
    by auto
  have "fst (isPasswordSet w2) = Inr True"
    by (rule isPasswordSet_hash[OF n2]) (simp add: d)
  moreover have "filter is_hash_row (db w2) = [hash_row (hashPassword sha password) (next_id w1)]"
    by (simp add: d)
  ultimately show "\<exists>w2. authenticateAdmin sha rnd now_ms password w1
                      = (Inr (Some (generateSessionToken rnd)), w2)
                \<and> filter (\<lambda>r. user_id r = PASSWORD_HASH_USER_ID) (db w2)
                      = [\<lparr>id_pk = next_id w1, user_id = PASSWORD_HASH_USER_ID,
                          session_token = hashPassword sha password, expires_at = ''0''\<rparr>]
                \<and> fst (isPasswordSet w2) = Inr True"
    using a by (simp add: hash_filter hash_row_def)
qed

subsection \<open>Session validation\<close>

text \<open>
  C4.  When the lookup of the token that \<open>validateSession\<close> checks (its argument, or the
  content of the slot when the argument is missing or empty) answers with a row whose
  \<open>user_id\<close> is the password-hash sentinel in first place, the call removes the token
  from \<open>localStorage\<close> and returns false.
\<close>

theorem validateSession_rejects_hash_record:
  assumes "getAdminSessionBySessionToken t w = (Inr (r # rs), w1)"
    and "user_id r = PASSWORD_HASH_USER_ID"
    and "t \<noteq> []"
    and "sessionToken = Some t \<or> (sessionToken \<in> {None, Some []} \<and> getSessionToken w = Some t)"
  shows "validateSession sessionToken now_ms w = (Inr False, removeItem SESSION_TOKEN_KEY w1)
         \<and> getSessionToken (removeItem SESSION_TOKEN_KEY w1) = None"
  using assms
  by (auto simp: validateSession_def try_catch_def await_def getSessionToken_def getItem_def
      removeItem_def)

text \<open>
  The text of the stored hash, \<open>''ab''\<close>, presented as a token: the lookup finds the
  password-hash row.
\<close>

theorem validateSession_rejects_hash_record_witness:
  "validateSession (Some ''ab'') 50 (w_logged_in\<lparr>faults := []\<rparr>)
     = (Inr False, w_logged_in\<lparr>faults := [], localStorage := Map.empty\<rparr>)
   \<and> getSessionToken (w_logged_in\<lparr>faults := [], localStorage := Map.empty\<rparr>) = None"
  using validateSession_rejects_hash_record[of "''ab''" "w_logged_in\<lparr>faults := []\<rparr>"
     "\<lparr>id_pk = 0, user_id = ''__password_hash__'', session_token = ''ab'', expires_at = ''0''\<rparr>" "[]"
     "w_logged_in\<lparr>faults := []\<rparr>" "Some ''ab''" 50]
  by (simp add: w_logged_in_def getAdminSessionBySessionToken_def request_def PASSWORD_HASH_USER_ID_def
       removeItem_def SESSION_TOKEN_KEY_def getSessionToken_def getItem_def)

subsection \<open>Expiry\<close>

lemma validate_expired:
  assumes "getAdminSessionBySessionToken t w = (Inr (r # rs), w1)" and "t \<noteq> []"
    and "user_id r \<noteq> PASSWORD_HASH_USER_ID"
    and "parseInt (expires_at r) = Some e" and "e < now_ms div 1000"
    and "deleteAdminSessionById (id_pk r) w1 = (Inr (), w2)"
  shows "validateSession (Some t) now_ms w = (Inr False, removeItem SESSION_TOKEN_KEY w2)"
    and "db (removeItem SESSION_TOKEN_KEY w2) = filter (\<lambda>x. id_pk x \<noteq> id_pk r) (db w)"
    and "getSessionToken (removeItem SESSION_TOKEN_KEY w2) = None"
proof -
  show "validateSession (Some t) now_ms w = (Inr False, removeItem SESSION_TOKEN_KEY w2)"
    using assms by (simp add: validateSession_def try_catch_def await_def ret_def js_gt_def)
  from getByToken_cases[OF assms(1)] have "w1 = tick w" by simp
  with deleteById_cases[OF assms(6)]
  show "db (removeItem SESSION_TOKEN_KEY w2) = filter (\<lambda>x. id_pk x \<noteq> id_pk r) (db w)"
    by (auto simp: removeItem_def)
  show "getSessionToken (removeItem SESSION_TOKEN_KEY w2) = None"
    by (simp add: getSessionToken_def getItem_def removeItem_def)
qed

lemma validate_not_expired:
  assumes "getAdminSessionBySessionToken t w = (Inr (r # rs), w1)" and "t \<noteq> []"
    and "user_id r \<noteq> PASSWORD_HASH_USER_ID"
    and "\<not> (\<exists>e. parseInt (expires_at r) = Some e \<and> e < now_ms div 1000)"
  shows "validateSession (Some t) now_ms w = (Inr True, w1)"
    and "db w1 = db w" and "localStorage w1 = localStorage w"
proof -
  from assms(4) have "\<not> js_gt (now_ms div 1000) (parseInt (expires_at r))"
    by (simp add: js_gt_def split: option.splits)
  with assms(1-3) show "validateSession (Some t) now_ms w = (Inr True, w1)"
    by (simp add: validateSession_def try_catch_def await_def ret_def)
  from getByToken_cases[OF assms(1)] show "db w1 = db w" "localStorage w1 = localStorage w"
    by simp_all
qed

lemma validate_after_login:
  assumes login: "authenticateAdmin sha rnd t0 password v = (Inr (Some tok), v')"
    and lookup: "getAdminSessionBySessionToken tok v' = (Inr rows, v'')"
    and fresh: "list_all (\<lambda>x. session_token x \<noteq> tok)
                  (filter (\<lambda>x. user_id x = PASSWORD_HASH_USER_ID) (db v'))"
    and time: "now' div 1000 \<le> (t0 + SESSION_DURATION_MS) div 1000"
  shows "validateSession (Some tok) now' v' = (Inr True, v'')"
proof -
  from authenticateAdmin_success[OF login] obtain v1 where
    c: "create_session rnd t0 v1 = (Inr (Some tok), v')" by blast
  let ?s = "session_row tok t0 (next_id v1)"
  have ne: "tok \<noteq> []"
    using create_session_effect(1)[OF c] by (simp add: generateSessionToken_not_Nil)
  let ?H = "filter (\<lambda>r. id_pk r \<notin> id_pk ` {x \<in> set (db v1). \<not> is_hash_row x}) (db v1)"
  have dbv: "db v' = ?H @ [?s]" by (rule create_session_effect(2)[OF c])
  have hashes: "is_hash_row x" if "x \<in> set ?H" for x
  proof (rule ccontr)
    assume "\<not> is_hash_row x"
    moreover from that have "x \<in> set (db v1)" by simp
    ultimately have "id_pk x \<in> id_pk ` {x \<in> set (db v1). \<not> is_hash_row x}" by blast
    with that show False by simp
  qed
  have nomatch: "session_token x \<noteq> tok" if "x \<in> set ?H" for x
  proof -
    from that have "x \<in> set (db v')" unfolding dbv by simp
    moreover from hashes[OF that] have "user_id x = PASSWORD_HASH_USER_ID"
      by (simp add: is_hash_row_def)
    ultimately show ?thesis using fresh by (simp add: list_all_iff)
  qed
  have "filter (\<lambda>x. session_token x = tok) ?H = []"
    unfolding filter_empty_conv using nomatch by blast
  then have "filter (\<lambda>x. session_token x = tok) (db v') = [?s]"
    unfolding dbv by (simp add: session_row_def)
  with getByToken_cases[OF lookup] have rows: "rows = [?s]" by simp
  have p: "parseInt (expires_at ?s) = Some ((t0 + SESSION_DURATION_MS) div 1000)"
    by (simp add: session_row_def parseInt_toString)
  have u: "user_id ?s \<noteq> PASSWORD_HASH_USER_ID"
    by (simp add: session_row_def PASSWORD_HASH_USER_ID_def)
  from validate_not_expired(1)[OF lookup[unfolded rows] ne u, of now'] p time
  show ?thesis by simp
qed

text \<open>
  C5.  Let the lookup of a non-empty token answer with a row \<open>r\<close> in first place that
  is no password-hash row.  If \<open>expires_at\<close> of \<open>r\<close> parses to a number of seconds
  strictly below the current time in seconds and the request that deletes \<open>r\<close> is
  answered, \<open>validateSession\<close> returns false, the rows with the primary key of \<open>r\<close>
  are gone and the token slot is empty.  Otherwise it returns true and leaves table and
  \<open>localStorage\<close> as they were.  In particular the token that a successful login at
  time \<open>t0\<close> returns is accepted at every time up to 24 hours later (at \<open>t0\<close> itself,
  for one), provided the lookup is answered and no password-hash row stores the very
  text of the token as its digest.
\<close>

theorem validateSession_expiry:
  "(getAdminSessionBySessionToken t w = (Inr (r # rs), w1) \<and> t \<noteq> []
      \<and> user_id r \<noteq> PASSWORD_HASH_USER_ID \<longrightarrow>
      (parseInt (expires_at r) = Some e \<and> e < now_ms div 1000
         \<and> deleteAdminSessionById (id_pk r) w1 = (Inr (), w2) \<longrightarrow>
         validateSession (Some t) now_ms w = (Inr False, removeItem SESSION_TOKEN_KEY w2)
         \<and> db (removeItem SESSION_TOKEN_KEY w2) = filter (\<lambda>x. id_pk x \<noteq> id_pk r) (db w)
         \<and> getSessionToken (removeItem SESSION_TOKEN_KEY w2) = None)
    \<and> (\<not> (\<exists>e. parseInt (expires_at r) = Some e \<and> e < now_ms div 1000) \<longrightarrow>
         validateSession (Some t) now_ms w = (Inr True, w1)
         \<and> db w1 = db w \<and> localStorage w1 = localStorage w))
   \<and> (authenticateAdmin sha rnd t0 password v = (Inr (Some tok), v')
      \<and> getAdminSessionBySessionToken tok v' = (Inr rows, v'')
      \<and> list_all (\<lambda>x. session_token x \<noteq> tok)
           (filter (\<lambda>x. user_id x = PASSWORD_HASH_USER_ID) (db v'))
      \<and> now' div 1000 \<le> (t0 + SESSION_DURATION_MS) div 1000 \<longrightarrow>
      validateSession (Some tok) now' v' = (Inr True, v''))"
proof (intro conjI impI)
  assume a: "getAdminSessionBySessionToken t w = (Inr (r # rs), w1) \<and> t \<noteq> []
      \<and> user_id r \<noteq> PASSWORD_HASH_USER_ID"
  {
    assume b: "parseInt (expires_at r) = Some e \<and> e < now_ms div 1000
         \<and> deleteAdminSessionById (id_pk r) w1 = (Inr (), w2)"
    from a b show "validateSession (Some t) now_ms w = (Inr False, removeItem SESSION_TOKEN_KEY w2)"
      by (intro validate_expired(1)[of t w r rs w1 e now_ms w2]) simp_all
    from a b show "db (removeItem SESSION_TOKEN_KEY w2) = filter (\<lambda>x. id_pk x \<noteq> id_pk r) (db w)"
      by (intro validate_expired(2)[of t w r rs w1 e now_ms w2]) simp_all
    show "getSessionToken (removeItem SESSION_TOKEN_KEY w2) = None"
      by (simp add: getSessionToken_def getItem_def removeItem_def)
  }
  {
    assume c: "\<not> (\<exists>e. parseInt (expires_at r) = Some e \<and> e < now_ms div 1000)"
    from a c show "validateSession (Some t) now_ms w = (Inr True, w1)"
      by (intro validate_not_expired(1)[of t w r rs w1 now_ms]) simp_all
    from a c show "db w1 = db w"
      by (intro validate_not_expired(2)[of t w r rs w1 now_ms]) simp_all
    from a c show "localStorage w1 = localStorage w"
      by (intro validate_not_expired(3)[of t w r rs w1 now_ms]) simp_all
  }
next
  assume d: "authenticateAdmin sha rnd t0 password v = (Inr (Some tok), v')
      \<and> getAdminSessionBySessionToken tok v' = (Inr rows, v'')
      \<and> list_all (\<lambda>x. session_token x \<noteq> tok)
           (filter (\<lambda>x. user_id x = PASSWORD_HASH_USER_ID) (db v'))
      \<and> now' div 1000 \<le> (t0 + SESSION_DURATION_MS) div 1000"
  then show "validateSession (Some tok) now' v' = (Inr True, v'')"
    by (intro validate_after_login[of sha rnd t0 password v tok v' rows v'' now']) simp_all
qed

subsection \<open>Cleanup\<close>

lemma cleanup_effect:
  "\<exists>D. D \<subseteq> id_pk ` {x \<in> set (db w). \<not> is_hash_row x \<and> expired (now_ms div 1000) x}
     \<and> (no_faults w \<longrightarrow> D = id_pk ` {x \<in> set (db w). \<not> is_hash_row x \<and> expired (now_ms div 1000) x})
     \<and> cleanupExpiredSessions now_ms w = (Inr (), snd (cleanupExpiredSessions now_ms w))
     \<and> db (snd (cleanupExpiredSessions now_ms w)) = filter (\<lambda>r. id_pk r \<notin> D) (db w)
     \<and> next_id (snd (cleanupExpiredSessions now_ms w)) = next_id w
     \<and> localStorage (snd (cleanupExpiredSessions now_ms w)) = localStorage w"
proof (cases "faults w \<noteq> [] \<and> hd (faults w)")
  case True
  then have "cleanupExpiredSessions now_ms w = (Inr (), tick w)"
    by (simp add: cleanupExpiredSessions_def try_catch_def await_def ret_def
        getAllAdminSession_def request_unfold)
  moreover from True have "\<not> no_faults w" by (cases "faults w") (auto simp: no_faults_def)
  ultimately show ?thesis by (auto intro: exI[of _ "{}"])
next
  case False
  let ?P = "\<lambda>r. \<not> is_hash_row r \<and> expired (now_ms div 1000) r"
  obtain res w' where l: "delete_where ?P (db w) (tick w) = (res, w')"
    by (cases "delete_where ?P (db w) (tick w)")
  from False have c: "cleanupExpiredSessions now_ms w = (Inr (), w')"
    using l by (cases res)
      (auto simp: cleanupExpiredSessions_def try_catch_def await_def ret_def
        getAllAdminSession_def request_unfold cleanup_each_where)
  from delete_where_effect[OF l] obtain D where
    D: "D \<subseteq> id_pk ` {x \<in> set (db w). ?P x}"
       "res = Inr () \<longrightarrow> D = id_pk ` {x \<in> set (db w). ?P x}"
       "db w' = filter (\<lambda>r. id_pk r \<notin> D) (db w)"
       "next_id w' = next_id w" "localStorage w' = localStorage w"
    by auto
  have "no_faults w \<longrightarrow> res = Inr ()"
    using delete_where_runs[of "tick w" ?P "db w"] l by auto
  with D c show ?thesis by (auto intro!: exI[of _ D])
qed

lemma filter_by_distinct_ids:
  assumes "distinct (map id_pk xs)"
  shows "filter (\<lambda>r. id_pk r \<notin> id_pk ` {x \<in> set xs. P x}) xs = filter (\<lambda>r. \<not> P r) xs"
proof (rule filter_cong[OF refl])
  fix r assume r: "r \<in> set xs"
  from assms have "inj_on id_pk (set xs)" by (simp add: distinct_map)
  with r show "(id_pk r \<notin> id_pk ` {x \<in> set xs. P x}) = (\<not> P r)"
    by (auto dest: inj_onD)
qed

text \<open>
  C9.  When no request fails and no two rows share a primary key,
  \<open>cleanupExpiredSessions\<close> leaves the table without exactly the rows that are no
  password-hash rows and whose \<open>expires_at\<close> parses to a number of seconds strictly
  below the current time in seconds; every other row is still there, unchanged and in
  its place.
\<close>

theorem cleanup_removes_expired:
  assumes "no_faults w" and "distinct (map id_pk (db w))"
  shows "fst (cleanupExpiredSessions now_ms w) = Inr ()
       \<and> db (snd (cleanupExpiredSessions now_ms w))
           = filter (\<lambda>r. \<not> (user_id r \<noteq> PASSWORD_HASH_USER_ID
                            \<and> (case parseInt (expires_at r) of None \<Rightarrow> False
                                | Some e \<Rightarrow> e < now_ms div 1000))) (db w)
       \<and> localStorage (snd (cleanupExpiredSessions now_ms w)) = localStorage w"
proof -
  let ?P = "\<lambda>r. \<not> is_hash_row r \<and> expired (now_ms div 1000) r"
  from cleanup_effect[of w now_ms] assms(1) have
    "cleanupExpiredSessions now_ms w = (Inr (), snd (cleanupExpiredSessions now_ms w))"
    "db (snd (cleanupExpiredSessions now_ms w))
       = filter (\<lambda>r. id_pk r \<notin> id_pk ` {x \<in> set (db w). ?P x}) (db w)"
    "localStorage (snd (cleanupExpiredSessions now_ms w)) = localStorage w"
    by auto
  then show ?thesis
    unfolding filter_by_distinct_ids[OF assms(2)]
    by (simp add: is_hash_row_def expired_def)
      (metis fst_conv)
qed

text \<open>
  C10.  A row that is no password-hash row and whose \<open>expires_at\<close> does not parse
  (\<open>parseInt\<close> gives \<open>NaN\<close>) never expires: when the lookup of its token answers with
  it in first place, \<open>validateSession\<close> returns true at every time; and when no other
  row shares its primary key, it is still in the table after
  \<open>cleanupExpiredSessions\<close>, at every time and whichever requests fail.
\<close>

theorem unparsable_expiry_never_expires:
  assumes "user_id r \<noteq> PASSWORD_HASH_USER_ID" and "parseInt (expires_at r) = None"
  shows "(getAdminSessionBySessionToken t w = (Inr (r # rs), w1) \<and> t \<noteq> []
            \<longrightarrow> validateSession (Some t) now_ms w = (Inr True, w1))
       \<and> (r \<in> set (db w) \<and> distinct (map id_pk (db w))
            \<longrightarrow> r \<in> set (db (snd (cleanupExpiredSessions now_ms w))))"
proof (intro conjI impI)
  assume "getAdminSessionBySessionToken t w = (Inr (r # rs), w1) \<and> t \<noteq> []"
  with assms show "validateSession (Some t) now_ms w = (Inr True, w1)"
    by (simp add: validateSession_def try_catch_def await_def ret_def js_gt_def)
next
  assume a: "r \<in> set (db w) \<and> distinct (map id_pk (db w))"
  from cleanup_effect[of w now_ms] obtain D where
    D: "D \<subseteq> id_pk ` {x \<in> set (db w). \<not> is_hash_row x \<and> expired (now_ms div 1000) x}"
       "db (snd (cleanupExpiredSessions now_ms w)) = filter (\<lambda>r. id_pk r \<notin> D) (db w)"
    by blast
  from a have inj: "inj_on id_pk (set (db w))" by (simp add: distinct_map)
  have "\<not> expired (now_ms div 1000) r" using assms(2) by (simp add: expired_def)
  with inj a D(1) have "id_pk r \<notin> D" by (auto dest: inj_onD)
  with a show "r \<in> set (db (snd (cleanupExpiredSessions now_ms w)))"
    by (simp add: D(2))
qed

subsection \<open>No store error escapes\<close>

lemma try_catch_returns:
  assumes "\<And>e' w'. fst (h e' w') \<noteq> Inl e"
  shows "fst (try_catch b h w) \<noteq> Inl e"
proof (cases "b w")
  case (Pair res w')
  show ?thesis
  proof (cases res)
    case (Inl e')
    with Pair assms[of e' w'] show ?thesis by (simp add: try_catch_def)
  next
    case (Inr x)
    with Pair show ?thesis by (simp add: try_catch_def)
  qed
qed

lemma validateSession_returns: "fst (validateSession sessionToken now_ms w) \<noteq> Inl e"
proof -
  have "fst (try_catch body (\<lambda>error. ret False) w) \<noteq> Inl e" for body :: "bool prog"
    by (rule try_catch_returns) (simp add: ret_def)
  then show ?thesis
    by (auto simp: validateSession_def Let_def split: option.splits)
qed

lemma resetAdminPassword_returns: "fst (resetAdminPassword w) \<noteq> Inl e"
  unfolding resetAdminPassword_def by (rule try_catch_returns) (simp add: ret_def)

lemma cleanup_returns: "fst (cleanupExpiredSessions now_ms w) = Inr ()"
  using cleanup_effect[of w now_ms] by (metis fst_conv)

lemma authenticateAdmin_returns: "\<exists>r. fst (authenticateAdmin sha rnd now_ms password w) = Inr r"
proof -
  have c: "\<exists>r. fst (create_session rnd now_ms v) = Inr r" for v
    using create_session_never_throws[of rnd now_ms v] by auto
  have s: "\<exists>b v'. storePasswordHash h v = (Inr b, v')" for h v
    using storePasswordHash_never_throws[of h v] by (cases "storePasswordHash h v") auto
  show ?thesis
  proof (cases "password = [] \<or> trim password = []")
    case True
    then show ?thesis by (auto simp: authenticateAdmin_def ret_def)
  next
    case False
    obtain b v' where sv: "storePasswordHash (hashPassword sha password) (tick w) = (Inr b, v')"
      using s by blast
    from False sv c[of v'] c[of "tick w"] show ?thesis
      by (auto simp: authenticateAdmin_def await_def ret_def getStoredPasswordHash_eq Let_def
          split: option.splits)
  qed
qed

text \<open>
  None of the six operations of the service ends in a thrown store error, whichever
  requests fail.
\<close>

lemma store_errors_never_escape:
  "fst (isPasswordSet w) \<noteq> Inl e"
  "fst (authenticateAdmin sha rnd now_ms password w) \<noteq> Inl e"
  "fst (validateSession sessionToken now_ms w) \<noteq> Inl e"
  "fst (resetAdminPassword w) \<noteq> Inl e"
  "fst (logoutAdmin w) \<noteq> Inl e"
  "fst (cleanupExpiredSessions now_ms w) \<noteq> Inl e"
  using authenticateAdmin_returns[of sha rnd now_ms password w]
    validateSession_returns[of sessionToken now_ms w e] resetAdminPassword_returns[of w e]
    logout_slot[of w] cleanup_returns[of now_ms w]
  by (auto simp: isPasswordSet_eq)

subsection \<open>Primary keys stay unique\<close>

lemma wf_store_update [simp]:
  "wf_store (w\<lparr>faults := f\<rparr>) = wf_store w"
  "wf_store (w\<lparr>localStorage := l\<rparr>) = wf_store w"
  by (simp_all add: wf_store_def)

lemma wf_store_tick [simp]: "wf_store (tick w) = wf_store w"
  by (simp add: tick_def)

lemma wf_store_filter: "wf_store w \<Longrightarrow> wf_store (w\<lparr>db := filter P (db w)\<rparr>)"
  by (auto simp: wf_store_def distinct_map_filter list_all_iff)

lemma keeps_ret: "keeps_wf (ret x)"
  by (simp add: keeps_wf_def ret_def)

lemma keeps_await: "keeps_wf m \<Longrightarrow> (\<And>x. keeps_wf (f x)) \<Longrightarrow> keeps_wf (await m f)"
  unfolding keeps_wf_def await_def
  by (auto split: prod.splits sum.splits)

lemma keeps_try_catch: "keeps_wf b \<Longrightarrow> (\<And>e. keeps_wf (h e)) \<Longrightarrow> keeps_wf (try_catch b h)"
  unfolding keeps_wf_def try_catch_def
  by (auto split: prod.splits sum.splits)

lemma keeps_request:
  assumes "\<And>w. wf_store w \<Longrightarrow> wf_store (snd (op w))"
  shows "keeps_wf (request op)"
  unfolding keeps_wf_def
proof (intro allI impI)
  fix w assume "wf_store w"
  then have "wf_store (snd (op (tick w)))" using assms by simp
  then show "wf_store (snd (request op w))"
    using \<open>wf_store w\<close> by (auto simp: request_unfold split: prod.splits)
qed

lemma keeps_reads:
  "keeps_wf getAllAdminSession" "keeps_wf (getAdminSessionByUserId u)"
  "keeps_wf (getAdminSessionBySessionToken t)"
  unfolding getAllAdminSession_def getAdminSessionByUserId_def getAdminSessionBySessionToken_def
  by (rule keeps_request, simp)+

lemma keeps_deletes:
  "keeps_wf (deleteAdminSessionById i)" "keeps_wf (deleteAdminSessionBySessionToken t)"
  unfolding deleteAdminSessionById_def deleteAdminSessionBySessionToken_def
  by (rule keeps_request, simp add: wf_store_filter)+

lemma keeps_insert_one: "keeps_wf (insertAdminSession [r])"
  unfolding insertAdminSession_def
  by (rule keeps_request) (auto simp: wf_store_def Let_def list_all_iff)

lemma keeps_delete_where: "keeps_wf (delete_where P xs)"
  by (induction xs) (auto intro!: keeps_ret keeps_await keeps_deletes)

lemma keeps_local:
  "keeps_wf (\<lambda>w. (Inr x, setItem k v w))" "keeps_wf (\<lambda>w. (Inr x, removeItem k w))"
  by (simp_all add: keeps_wf_def setItem_def removeItem_def)

lemmas keeps_rules =
  keeps_ret keeps_await keeps_try_catch keeps_reads keeps_deletes keeps_insert_one
  keeps_delete_where keeps_local

lemma keeps_logoutAdmin: "keeps_wf logoutAdmin"
proof -
  have "keeps_wf (await m (\<lambda>_ w'. (Inr (), removeItem SESSION_TOKEN_KEY w')))"
    if "keeps_wf m" for m :: "unit prog"
    using that by (intro keeps_rules)
  then have "wf_store w \<Longrightarrow> wf_store (snd (logoutAdmin w))" for w
    unfolding logoutAdmin_def Let_def keeps_wf_def
    using keeps_ret[of "()"] keeps_try_catch[OF keeps_deletes(2), of "\<lambda>error. ret ()"]
    by (auto simp: keeps_wf_def keeps_ret split: option.splits)
  then show ?thesis by (simp add: keeps_wf_def)
qed

text \<open>
  Every operation of the service keeps the primary keys as the server makes them.
\<close>

lemma keeps_public:
  "keeps_wf isPasswordSet"
  "keeps_wf (authenticateAdmin sha rnd now_ms password)"
  "keeps_wf resetAdminPassword"
  "keeps_wf (cleanupExpiredSessions now_ms)"
  unfolding isPasswordSet_def authenticateAdmin_def resetAdminPassword_def
    cleanupExpiredSessions_def getStoredPasswordHash_def storePasswordHash_def
    create_session_def delete_each_where delete_sessions_where cleanup_each_where Let_def
  by (auto intro!: keeps_rules keeps_logoutAdmin split: option.splits list.splits)

lemma keeps_validateSession: "keeps_wf (validateSession sessionToken now_ms)"
proof -
  have body: "keeps_wf (try_catch
                 (await (getAdminSessionBySessionToken t) (\<lambda>sessions.
                    case sessions of
                      [] \<Rightarrow> (\<lambda>w'. (Inr False, removeItem SESSION_TOKEN_KEY w'))
                    | session # _ \<Rightarrow>
                        if user_id session = PASSWORD_HASH_USER_ID
                        then (\<lambda>w'. (Inr False, removeItem SESSION_TOKEN_KEY w'))
                        else
                          if js_gt (now_ms div 1000) (parseInt (expires_at session))
                          then await (deleteAdminSessionById (id_pk session))
                                 (\<lambda>_ w'. (Inr False, removeItem SESSION_TOKEN_KEY w'))
                          else ret True))
                 (\<lambda>error. ret False))" for t
    by (auto intro!: keeps_rules simp: Let_def split: list.splits)
  show ?thesis
    unfolding keeps_wf_def validateSession_def Let_def
    using body by (auto simp: keeps_wf_def split: option.splits)
qed

lemma wf_store_initial: "wf_store \<lparr>db = [], next_id = n, localStorage = l, faults = f\<rparr>"
  by (simp add: wf_store_def)

subsection \<open>The example worlds, run\<close>

lemmas run_simps =
  authenticateAdmin_def getStoredPasswordHash_def storePasswordHash_def create_session_def
  validateSession_def logoutAdmin_def resetAdminPassword_def cleanupExpiredSessions_def
  isPasswordSet_def getSessionToken_def
  getAllAdminSession_def getAdminSessionByUserId_def getAdminSessionBySessionToken_def
  deleteAdminSessionById_def deleteAdminSessionBySessionToken_def insertAdminSession_def
  request_def await_def try_catch_def ret_def getItem_def setItem_def removeItem_def
  trim_def is_white_def is_digit_def parseInt_def js_gt_def toString_def nat_digits.simps
  digit_char_def PASSWORD_HASH_USER_ID_def SESSION_TOKEN_KEY_def SESSION_DURATION_MS_def Let_def

lemma digest_secret: "hashPassword toy_digest ''secret'' = ''736563726574''"
  by (simp add: hashPassword_def toy_digest_def hex2_def hex_digit_def)

lemma digest_guess: "hashPassword toy_digest ''guess'' = ''6775657373''"
  by (simp add: hashPassword_def toy_digest_def hex2_def hex_digit_def)

lemma token_a_chars:
  "hd (generateSessionToken rnd_a) = CHR ''0''" "hd (tl (generateSessionToken rnd_a)) = CHR ''a''"
  by (simp_all add: generateSessionToken_def upt_rec[of 0 32] hex2_def hex_digit_def rnd_a_def)

lemma token_b_chars:
  "hd (generateSessionToken rnd_b) = CHR ''0''" "hd (tl (generateSessionToken rnd_b)) = CHR ''b''"
  by (simp_all add: generateSessionToken_def upt_rec[of 0 32] hex2_def hex_digit_def rnd_b_def)

lemma tokens_differ: "generateSessionToken rnd_a \<noteq> generateSessionToken rnd_b"
proof
  assume "generateSessionToken rnd_a = generateSessionToken rnd_b"
  then have "hd (tl (generateSessionToken rnd_a)) = hd (tl (generateSessionToken rnd_b))" by simp
  then show False by (simp add: token_a_chars token_b_chars)
qed

lemma token_a_not_digest: "hashPassword toy_digest ''secret'' \<noteq> generateSessionToken rnd_a"
proof
  assume "hashPassword toy_digest ''secret'' = generateSessionToken rnd_a"
  then have "hd (hashPassword toy_digest ''secret'') = hd (generateSessionToken rnd_a)" by simp
  then show False by (simp add: token_a_chars digest_secret)
qed

lemma login_first_ex:
  "authenticateAdmin toy_digest rnd_a 0 ''secret'' w_empty
     = (Inr (Some (generateSessionToken rnd_a)), w_first)"
  by (simp add: w_empty_def w_first_def run_simps)

lemma login_second_ex:
  "authenticateAdmin toy_digest rnd_b 1000 ''secret'' w_first
     = (Inr (Some (generateSessionToken rnd_b)), w_second)"
  by (simp add: w_second_def w_first_def run_simps)

lemma reset_ex: "resetAdminPassword w_first = (Inr True, w_reset)"
  using token_a_not_digest
  by (simp add: w_first_def w_reset_def run_simps generateSessionToken_not_Nil)

text \<open>
  C1, where the code departs from it.  In \<open>w_first\<close> the password \<open>''secret''\<close> is
  set.  Let the one request that reads the password-hash row fail.  Then
  \<open>authenticateAdmin\<close> with another password, \<open>''guess''\<close>, does not return absent:
  \<open>getStoredPasswordHash\<close> turns the failure into \<open>null\<close>, the caller takes
  \<open>null\<close> for "no password set yet", replaces the stored digest by the digest of
  \<open>''guess''\<close>, opens a session and returns its token.  With the read answered, the
  same call returns absent.
\<close>

theorem failed_hash_read_lets_any_password_in:
  "fst (authenticateAdmin toy_digest rnd_b 1000 ''guess'' (w_first\<lparr>faults := [True]\<rparr>))
     = Inr (Some (generateSessionToken rnd_b))
   \<and> db (snd (authenticateAdmin toy_digest rnd_b 1000 ''guess'' (w_first\<lparr>faults := [True]\<rparr>)))
     = [\<lparr>id_pk = 2, user_id = ''__password_hash__'',
         session_token = hashPassword toy_digest ''guess'', expires_at = ''0''\<rparr>,
        \<lparr>id_pk = 3, user_id = ''admin'',
         session_token = generateSessionToken rnd_b, expires_at = ''86401''\<rparr>]
   \<and> fst (authenticateAdmin toy_digest rnd_b 1000 ''guess'' w_first) = Inr None
   \<and> hashPassword toy_digest ''guess'' \<noteq> hashPassword toy_digest ''secret''"
  by (simp add: w_first_def run_simps digest_guess digest_secret)

text \<open>
  C2 as stated, for every password string, fails at the empty and at the blank
  password: on the empty table they return absent and the world stays as it was.
\<close>

theorem blank_first_login_counterexample:
  "authenticateAdmin toy_digest rnd_a 0 [] w_empty = (Inr None, w_empty)
   \<and> authenticateAdmin toy_digest rnd_a 0 ''  '' w_empty = (Inr None, w_empty)
   \<and> db w_empty = []"
  by (simp add: w_empty_def run_simps)

text \<open>
  The first login with \<open>''secret''\<close> at time 0 on the empty table.
\<close>

theorem first_login_bootstraps_witness:
  "\<exists>w'. authenticateAdmin toy_digest rnd_a 0 ''secret'' w_empty
          = (Inr (Some (generateSessionToken rnd_a)), w')
     \<and> db w' = [\<lparr>id_pk = 0, user_id = ''__password_hash__'',
                  session_token = ''736563726574'', expires_at = ''0''\<rparr>,
                \<lparr>id_pk = 1, user_id = ''admin'',
                  session_token = generateSessionToken rnd_a, expires_at = ''86400''\<rparr>]
     \<and> getSessionToken w' = Some (generateSessionToken rnd_a)
     \<and> fst (isPasswordSet w') = Inr True
     \<and> length (filter (\<lambda>r. user_id r = ''admin'') (db w')) = 1"
proof -
  have "db w_empty = []" "no_faults w_empty" "\<not> list_all is_white ''secret''"
    by (simp_all add: w_empty_def no_faults_def is_white_def)
  from first_login_bootstraps[OF this, of toy_digest rnd_a 0] show ?thesis
    by (simp add: w_empty_def digest_secret PASSWORD_HASH_USER_ID_def SESSION_DURATION_MS_def
        toString_def nat_digits.simps digit_char_def)
qed

text \<open>
  Two logins in a row: the second leaves its own session only, and the token of the
  first is rejected.
\<close>

theorem login_leaves_one_session_witness:
  "authenticateAdmin toy_digest rnd_a 0 ''secret'' w_empty
     = (Inr (Some (generateSessionToken rnd_a)), w_first)
   \<and> authenticateAdmin toy_digest rnd_b 1000 ''secret'' w_first
     = (Inr (Some (generateSessionToken rnd_b)), w_second)
   \<and> filter (\<lambda>r. user_id r \<noteq> PASSWORD_HASH_USER_ID) (db w_second)
     = [\<lparr>id_pk = 2, user_id = ''admin'', session_token = generateSessionToken rnd_b,
         expires_at = ''86401''\<rparr>]
   \<and> fst (validateSession (Some (generateSessionToken rnd_a)) 2000 w_second) = Inr False"
  using login_leaves_one_session[OF login_second_ex, of toy_digest rnd_a 0 "''secret''" w_empty
      "generateSessionToken rnd_a" w_first 2000]
    login_first_ex login_second_ex tokens_differ
  by (simp add: w_second_def SESSION_DURATION_MS_def toString_def nat_digits.simps digit_char_def)

text \<open>
  In \<open>w_mixed\<close> at second 500 the token \<open>''old''\<close> (expiry 100) is rejected and its
  row deleted, the token \<open>''new''\<close> (expiry 9999) is accepted; the token of the first
  login is accepted at the time of the login.
\<close>

theorem validateSession_expiry_witness:
  "validateSession (Some ''old'') 500000 w_mixed
     = (Inr False,
        w_mixed\<lparr>db := [\<lparr>id_pk = 0, user_id = ''__password_hash__'', session_token = ''ab'', expires_at = ''0''\<rparr>,
                       \<lparr>id_pk = 2, user_id = ''admin'', session_token = ''new'', expires_at = ''9999''\<rparr>,
                       \<lparr>id_pk = 3, user_id = ''admin'', session_token = ''odd'', expires_at = ''soon''\<rparr>],
                localStorage := Map.empty\<rparr>)
   \<and> validateSession (Some ''new'') 500000 w_mixed = (Inr True, w_mixed)
   \<and> validateSession (Some (generateSessionToken rnd_a)) 0 w_first = (Inr True, w_first)"
proof -
  let ?old = "\<lparr>id_pk = 1, user_id = ''admin'', session_token = ''old'', expires_at = ''100''\<rparr>"
  let ?new = "\<lparr>id_pk = 2, user_id = ''admin'', session_token = ''new'', expires_at = ''9999''\<rparr>"
  let ?w2 = "w_mixed\<lparr>db := [\<lparr>id_pk = 0, user_id = ''__password_hash__'', session_token = ''ab'', expires_at = ''0''\<rparr>,
                       \<lparr>id_pk = 2, user_id = ''admin'', session_token = ''new'', expires_at = ''9999''\<rparr>,
                       \<lparr>id_pk = 3, user_id = ''admin'', session_token = ''odd'', expires_at = ''soon''\<rparr>]\<rparr>"
  have l1: "getAdminSessionBySessionToken ''old'' w_mixed = (Inr [?old], w_mixed)"
    and l2: "getAdminSessionBySessionToken ''new'' w_mixed = (Inr [?new], w_mixed)"
    and d1: "deleteAdminSessionById 1 w_mixed = (Inr (), ?w2)"
    by (simp_all add: w_mixed_def getAdminSessionBySessionToken_def deleteAdminSessionById_def request_def)
  have p1: "parseInt ''100'' = Some 100" and p2: "parseInt ''9999'' = Some 9999"
    by (simp_all add: parseInt_def is_white_def is_digit_def)
  have l3: "getAdminSessionBySessionToken (generateSessionToken rnd_a) w_first
      = (Inr [\<lparr>id_pk = 1, user_id = ''admin'', session_token = generateSessionToken rnd_a,
               expires_at = ''86400''\<rparr>], w_first)"
    using token_a_not_digest
    by (simp add: w_first_def getAdminSessionBySessionToken_def request_def)
  have f3: "list_all (\<lambda>x. session_token x \<noteq> generateSessionToken rnd_a)
           (filter (\<lambda>x. user_id x = PASSWORD_HASH_USER_ID) (db w_first))"
    using token_a_not_digest by (simp add: w_first_def PASSWORD_HASH_USER_ID_def)
  have r1: "removeItem SESSION_TOKEN_KEY ?w2 = ?w2\<lparr>localStorage := Map.empty\<rparr>"
    by (simp add: w_mixed_def removeItem_def)
  show ?thesis
    using validateSession_expiry[where t = "''old''" and w = w_mixed and r = ?old and rs = "[]"
        and ?w1.0 = w_mixed and e = 100 and now_ms = 500000 and ?w2.0 = ?w2]
      validateSession_expiry[where t = "''new''" and w = w_mixed and r = ?new and rs = "[]"
        and ?w1.0 = w_mixed and now_ms = 500000
        and sha = toy_digest and rnd = rnd_a and ?t0.0 = 0 and password = "''secret''"
        and v = w_empty and tok = "generateSessionToken rnd_a" and v' = w_first
        and rows = "[\<lparr>id_pk = 1, user_id = ''admin'', session_token = generateSessionToken rnd_a,
               expires_at = ''86400''\<rparr>]" and v'' = w_first and now' = 0]
      l1 l2 d1 p1 p2 l3 f3 r1 login_first_ex
    by (simp add: PASSWORD_HASH_USER_ID_def SESSION_DURATION_MS_def)
qed


text \<open>
  Reset in \<open>w_first\<close>, then a login with \<open>''guess''\<close>.
\<close>

theorem reset_then_new_password_witness:
  "resetAdminPassword w_first = (Inr True, w_reset)
   \<and> filter (\<lambda>r. user_id r = PASSWORD_HASH_USER_ID) (db w_reset) = []
   \<and> getSessionToken w_reset = None
   \<and> filter (\<lambda>r. session_token r = generateSessionToken rnd_a) (db w_reset) = []
   \<and> fst (isPasswordSet w_reset) = Inr False
   \<and> (\<exists>w2. authenticateAdmin toy_digest rnd_b 7 ''guess'' w_reset
                = (Inr (Some (generateSessionToken rnd_b)), w2)
          \<and> filter (\<lambda>r. user_id r = PASSWORD_HASH_USER_ID) (db w2)
                = [\<lparr>id_pk = 2, user_id = ''__password_hash__'',
                    session_token = ''6775657373'', expires_at = ''0''\<rparr>]
          \<and> fst (isPasswordSet w2) = Inr True)"
proof -
  have wf: "wf_store w_first" by (simp add: wf_store_def w_first_def)
  have nb: "\<not> list_all is_white ''guess''" by (simp add: is_white_def)
  have nf: "no_faults w_reset" "no_faults w_first"
    by (simp_all add: no_faults_def w_reset_def w_first_def)
  have tk: "getSessionToken w_first = Some (generateSessionToken rnd_a)"
    by (simp add: getSessionToken_def getItem_def w_first_def)
  from reset_then_new_password[OF wf nb, of w_reset "generateSessionToken rnd_a" toy_digest rnd_b 7]
    reset_ex nf tk generateSessionToken_not_Nil[of rnd_a]
  show ?thesis
    by (simp add: digest_guess PASSWORD_HASH_USER_ID_def w_reset_def)
qed

text \<open>
  Cleanup of \<open>w_mixed\<close> at second 500: the session that expired at second 100 goes;
  the password-hash row (whose \<open>expires_at\<close> is \<open>"0"\<close>), the valid session and the
  session without a number stay.
\<close>

theorem cleanup_removes_expired_witness:
  "fst (cleanupExpiredSessions 500000 w_mixed) = Inr ()
   \<and> db (snd (cleanupExpiredSessions 500000 w_mixed))
      = [\<lparr>id_pk = 0, user_id = ''__password_hash__'', session_token = ''ab'', expires_at = ''0''\<rparr>,
         \<lparr>id_pk = 2, user_id = ''admin'', session_token = ''new'', expires_at = ''9999''\<rparr>,
         \<lparr>id_pk = 3, user_id = ''admin'', session_token = ''odd'', expires_at = ''soon''\<rparr>]"
proof -
  have "no_faults w_mixed" "distinct (map id_pk (db w_mixed))"
    by (simp_all add: no_faults_def w_mixed_def)
  from cleanup_removes_expired[OF this, of 500000] show ?thesis
    by (simp add: w_mixed_def PASSWORD_HASH_USER_ID_def parseInt_def is_white_def is_digit_def)
qed

text \<open>
  The session of \<open>w_mixed\<close> whose \<open>expires_at\<close> is \<open>"soon"\<close>, some three
  thousand years on.
\<close>

theorem unparsable_expiry_never_expires_witness:
  "parseInt ''soon'' = None
   \<and> validateSession (Some ''odd'') 99999999999000 w_mixed = (Inr True, w_mixed)
   \<and> \<lparr>id_pk = 3, user_id = ''admin'', session_token = ''odd'', expires_at = ''soon''\<rparr>
       \<in> set (db (snd (cleanupExpiredSessions 99999999999000 w_mixed)))"
proof -
  let ?odd = "\<lparr>id_pk = 3, user_id = ''admin'', session_token = ''odd'', expires_at = ''soon''\<rparr>"
  have u: "user_id ?odd \<noteq> PASSWORD_HASH_USER_ID" by (simp add: PASSWORD_HASH_USER_ID_def)
  have p: "parseInt (expires_at ?odd) = None" by (simp add: parseInt_def is_white_def is_digit_def)
  have l: "getAdminSessionBySessionToken ''odd'' w_mixed = (Inr [?odd], w_mixed)"
    by (simp add: w_mixed_def getAdminSessionBySessionToken_def request_def)
  have m: "?odd \<in> set (db w_mixed)" "distinct (map id_pk (db w_mixed))"
    by (simp_all add: w_mixed_def)
  from unparsable_expiry_never_expires[OF u p, of "''odd''" w_mixed "[]" w_mixed 99999999999000] l m p
  show ?thesis by simp
qed

end
